theory Spec2Isabelle
  imports Complex_Main "HOL-Library.Log_Nat" "HOL-Library.Word"
begin

section \<open>Python values, exceptions and configuration\<close>

text \<open>
  The image compressor is a Python class. Exceptions are modelled as values of
  \<open>py_error\<close>; a computation that may raise returns \<open>py_error + 'a\<close> with \<open>Inl\<close> for
  the exception. Only subclasses of \<open>Exception\<close> are modelled (not \<open>KeyboardInterrupt\<close>
  or \<open>SystemExit\<close>, which no handler of the source catches).
\<close>

datatype py_error =
    FileNotFoundError
  | PermissionError
  | IsADirectoryError
  | OSError
  | UnidentifiedImageError
  | DecompressionBombError
  | ValueError
  | TypeError
  | IndexError
  | ZeroDivisionError
  | OverflowError
  | OtherException string

text \<open>
  Values a configuration provider can hand out. Floating-point configuration values
  are outside the model.
\<close>

datatype pyval = PyNone | PyBool bool | PyInt int | PyStr string

type_synonym config = "string \<rightharpoonup> pyval"

text \<open>\<open>config.get(key, default)\<close>.\<close>

definition cfg_get :: "config \<Rightarrow> string \<Rightarrow> pyval \<Rightarrow> pyval" where
  "cfg_get cfg key dflt = (case cfg key of None \<Rightarrow> dflt | Some v \<Rightarrow> v)"

subsection \<open>The builtin \<open>int()\<close>\<close>

text \<open>
  \<open>int(s)\<close> on a string: surrounding whitespace is stripped, an optional sign is read,
  then decimal digits, where single underscores may separate digits. Strings are byte
  lists here, so only ASCII digits and ASCII whitespace are recognised.
\<close>

definition is_space :: "char \<Rightarrow> bool" where
  "is_space c = (c \<in> set [CHR '' '', CHR 0x09, CHR 0x0A, CHR 0x0B, CHR 0x0C, CHR 0x0D])"

definition strip :: "string \<Rightarrow> string" where
  "strip s = rev (dropWhile is_space (rev (dropWhile is_space s)))"

definition digit_val :: "char \<Rightarrow> int option" where
  "digit_val c =
     (let n = (of_char c :: nat) in if 48 \<le> n \<and> n \<le> 57 then Some (int n - 48) else None)"

fun parse_digits :: "string \<Rightarrow> int \<Rightarrow> bool \<Rightarrow> int option" where
  "parse_digits [] acc prev_digit = (if prev_digit then Some acc else None)"
| "parse_digits (c # cs) acc prev_digit =
     (if c = CHR ''_'' then (if prev_digit \<and> cs \<noteq> [] then parse_digits cs acc False else None)
      else (case digit_val c of
              None \<Rightarrow> None
            | Some d \<Rightarrow> parse_digits cs (10 * acc + d) True))"

definition int_of_str :: "string \<Rightarrow> py_error + int" where
  "int_of_str s =
     (case strip s of
        [] \<Rightarrow> Inl ValueError
      | c # cs \<Rightarrow>
          (if c = CHR ''-'' then
             (case parse_digits cs 0 False of None \<Rightarrow> Inl ValueError | Some n \<Rightarrow> Inr (- n))
           else if c = CHR ''+'' then
             (case parse_digits cs 0 False of None \<Rightarrow> Inl ValueError | Some n \<Rightarrow> Inr n)
           else
             (case parse_digits (c # cs) 0 False of None \<Rightarrow> Inl ValueError | Some n \<Rightarrow> Inr n)))"

fun py_int :: "pyval \<Rightarrow> py_error + int" where
  "py_int (PyInt n) = Inr n"
| "py_int (PyBool b) = Inr (if b then 1 else 0)"
| "py_int (PyStr s) = int_of_str s"
| "py_int PyNone = Inl TypeError"

text \<open>
  A configuration value used as a number without conversion (\<open>width > max_width\<close>):
  integers and booleans compare, anything else raises \<open>TypeError\<close>.
\<close>

fun py_num :: "pyval \<Rightarrow> py_error + int" where
  "py_num (PyInt n) = Inr n"
| "py_num (PyBool b) = Inr (if b then 1 else 0)"
| "py_num (PyStr s) = Inl TypeError"
| "py_num PyNone = Inl TypeError"

section \<open>Python floats\<close>

text \<open>
  A Python \<open>float\<close> is an IEEE 754 binary64 number. A finite float is modelled by the
  rational number it denotes, and every arithmetic operation rounds its exact result to
  53 significant bits, to nearest, ties to even (\<open>fl64\<close>). Apart from the division of
  two integers below, the exponent range is not modelled: the operands that occur are
  image dimensions, pixel counts, channel sums and the clamped quality, far from
  overflow and underflow.
\<close>

type_synonym pyfloat = rat

definition pow2 :: "int \<Rightarrow> rat" where
  "pow2 e = (if 0 \<le> e then 2 ^ nat e else 1 / 2 ^ nat (- e))"

text \<open>\<open>ilog2 x\<close> is \<open>\<lfloor>log\<^sub>2 x\<rfloor>\<close> for a positive rational \<open>x\<close>.\<close>

definition ilog2 :: "rat \<Rightarrow> int" where
  "ilog2 x =
     (let (p, q) = quotient_of x; d = bitlen p - bitlen q
      in if pow2 d \<le> x then d else d - 1)"

definition round_half_even :: "rat \<Rightarrow> int" where
  "round_half_even y =
     (let f = \<lfloor>y\<rfloor>; d = y - of_int f
      in if d < 1 / 2 then f
         else if 1 / 2 < d then f + 1
         else if even f then f else f + 1)"

definition fl64 :: "rat \<Rightarrow> pyfloat" where
  "fl64 x =
     (if x = 0 then 0
      else (let s = pow2 (ilog2 \<bar>x\<bar> - 52)
            in of_int (round_half_even (x / s)) * s))"

text \<open>\<open>float(n)\<close> for an integer \<open>n\<close>.\<close>

definition py_float :: "int \<Rightarrow> pyfloat" where
  "py_float n = fl64 (of_int n)"

text \<open>
  \<open>a / b\<close> on two integers: true division, correctly rounded. The operands are
  arbitrary integers, so here the range matters: a quotient that rounds to \<open>2\<^sup>1\<^sup>0\<^sup>2\<^sup>4\<close> or
  beyond is too large for a float and raises \<open>OverflowError\<close>.
\<close>

definition py_truediv :: "int \<Rightarrow> int \<Rightarrow> py_error + pyfloat" where
  "py_truediv a b =
     (if b = 0 then Inl ZeroDivisionError
      else (let q = fl64 (of_int a / of_int b)
            in if 2 ^ 1024 \<le> \<bar>q\<bar> then Inl OverflowError else Inr q))"

text \<open>\<open>x / y\<close>, \<open>x * y\<close> and \<open>x + y\<close> on two floats.\<close>

definition py_fdiv :: "pyfloat \<Rightarrow> pyfloat \<Rightarrow> py_error + pyfloat" where
  "py_fdiv x y = (if y = 0 then Inl ZeroDivisionError else Inr (fl64 (x / y)))"

definition py_fmul :: "pyfloat \<Rightarrow> pyfloat \<Rightarrow> pyfloat" where
  "py_fmul x y = fl64 (x * y)"

definition py_fadd :: "pyfloat \<Rightarrow> pyfloat \<Rightarrow> pyfloat" where
  "py_fadd x y = fl64 (x + y)"

text \<open>\<open>int(x)\<close> on a float truncates toward zero; \<open>round(x)\<close> rounds half to even.\<close>

definition py_trunc :: "pyfloat \<Rightarrow> int" where
  "py_trunc x = (if 0 \<le> x then \<lfloor>x\<rfloor> else \<lceil>x\<rceil>)"

definition py_round :: "pyfloat \<Rightarrow> int" where
  "py_round x = round_half_even x"

section \<open>Images and the imaging library\<close>

text \<open>
  A decoded image has a pixel mode, a size, an \<open>info\<close> dictionary of which only the
  presence of the key \<open>transparency\<close> matters, and pixel data. The modes are those of
  the specification's data model: grayscale \<open>L\<close>, grayscale with alpha \<open>LA\<close>, \<open>RGB\<close>,
  \<open>RGBA\<close> and palette \<open>P\<close>. The pixel data determine the mode.
\<close>

datatype raster =
    Gray "int list"
  | GrayAlpha "(int \<times> int) list"
  | RGB "(int \<times> int \<times> int) list"
  | RGBA "(int \<times> int \<times> int \<times> int) list"
  | Indexed "int list"

record image =
  im_size :: "int \<times> int"
  im_transparency :: bool
  im_raster :: raster

definition mode :: "image \<Rightarrow> string" where
  "mode img =
     (case im_raster img of
        Gray _ \<Rightarrow> ''L''
      | GrayAlpha _ \<Rightarrow> ''LA''
      | RGB _ \<Rightarrow> ''RGB''
      | RGBA _ \<Rightarrow> ''RGBA''
      | Indexed _ \<Rightarrow> ''P'')"

text \<open>
  \<open>img.getdata()\<close>: a sequence with one item per pixel, a tuple of band values for a
  multi-band image and a plain integer for a single-band one.
\<close>

datatype pixel = Scalar int | Tuple "int list"

definition getdata :: "image \<Rightarrow> pixel list" where
  "getdata img =
     (case im_raster img of
        Gray ps \<Rightarrow> map Scalar ps
      | GrayAlpha ps \<Rightarrow> map (\<lambda>(l, a). Tuple [l, a]) ps
      | RGB ps \<Rightarrow> map (\<lambda>(r, g, b). Tuple [r, g, b]) ps
      | RGBA ps \<Rightarrow> map (\<lambda>(r, g, b, a). Tuple [r, g, b, a]) ps
      | Indexed ps \<Rightarrow> map Scalar ps)"

text \<open>\<open>p[i]\<close> on an item of \<open>getdata()\<close>.\<close>

fun px_index :: "pixel \<Rightarrow> nat \<Rightarrow> py_error + int" where
  "px_index (Scalar v) i = Inl TypeError"
| "px_index (Tuple vs) i = (if i < length vs then Inr (vs ! i) else Inl IndexError)"

datatype resample = NEAREST | LANCZOS | BILINEAR

datatype dither = NONE | FLOYDSTEINBERG

datatype quantize_method = MEDIANCUT | FASTOCTREE

text \<open>
  The file system (POSIX): a path names a regular file with its bytes, a directory, a
  character device with the bytes that reading it to the end yields (none for
  \<open>/dev/null\<close>), or nothing. Named pipes and sockets are not modelled. Paths are taken
  to be canonical absolute paths (no symbolic links, no relative segments). A name
  that contains a NUL character names nothing, and the system calls refuse it with
  \<open>ValueError\<close>.
\<close>

type_synonym bytes = "8 word list"

datatype node = File bytes | Dir | Device bytes

type_synonym fs = "string \<rightharpoonup> node"

definition has_nul :: "string \<Rightarrow> bool" where
  "has_nul p = (CHR 0x00 \<in> set p)"

text \<open>
  The imaging library and the operating system are not part of the repository. What the
  properties below do not depend on is a parameter: decoding, encoding, the pixels that
  resampling produces, quantization, mode conversions other than the two written out
  below, pasting through a mask, the \<open>os.path\<close> string functions, directory creation,
  and where and whether a destination file can be written. Keyword arguments of \<open>save\<close>
  are an association list.
\<close>

record env =
  lib_open :: "bytes \<Rightarrow> py_error + image"
  lib_convert :: "image \<Rightarrow> string \<Rightarrow> py_error + image"
  lib_resample :: "image \<Rightarrow> int \<times> int \<Rightarrow> resample \<Rightarrow> raster"
  lib_paste :: "image \<Rightarrow> image \<Rightarrow> py_error + image"
  lib_convert_adaptive :: "image \<Rightarrow> int \<Rightarrow> dither \<Rightarrow> py_error + image"
  lib_quantize :: "image \<Rightarrow> int \<Rightarrow> quantize_method \<Rightarrow> dither \<Rightarrow> py_error + image"
  lib_save :: "image \<Rightarrow> string \<Rightarrow> (string \<times> pyval) list \<Rightarrow> fs \<Rightarrow> (py_error + unit) \<times> fs"
  os_dirname :: "string \<Rightarrow> string"
  os_splitext :: "string \<Rightarrow> string \<times> string"
  str_lower :: "string \<Rightarrow> string"
  os_makedirs :: "string \<Rightarrow> fs \<Rightarrow> py_error + unit"
  os_dest :: "string \<Rightarrow> string \<Rightarrow> fs \<Rightarrow> py_error + string"

text \<open>
  \<open>img.resize(size, resample)\<close>. A resize to the image's own size returns a copy; a
  width or height below 1 is refused with \<open>ValueError\<close>; otherwise the result is an image
  of the requested size whose pixels the library computes (exhausted memory is not
  modelled, as for \<open>Image.new\<close>).
\<close>

definition resize :: "env \<Rightarrow> image \<Rightarrow> int \<times> int \<Rightarrow> resample \<Rightarrow> py_error + image" where
  "resize env img sz f =
     (if im_size img = sz then Inr img
      else if fst sz < 1 \<or> snd sz < 1 then Inl ValueError
      else Inr \<lparr>im_size = sz, im_transparency = im_transparency img,
                im_raster = lib_resample env img sz f\<rparr>)"

text \<open>
  \<open>img.convert(m)\<close>. A conversion to the image's own mode returns a copy; \<open>RGBA\<close> to
  \<open>RGB\<close> drops the alpha band. Every other conversion is the library's.
\<close>

fun rgb_of :: "int \<times> int \<times> int \<times> int \<Rightarrow> int \<times> int \<times> int" where
  "rgb_of (r, g, b, a) = (r, g, b)"

fun alpha_of :: "int \<times> int \<times> int \<times> int \<Rightarrow> int" where
  "alpha_of (r, g, b, a) = a"

definition rgba_to_rgb :: "image \<Rightarrow> image" where
  "rgba_to_rgb img =
     (case im_raster img of
        RGBA ps \<Rightarrow> img\<lparr>im_raster := RGB (map rgb_of ps)\<rparr>
      | _ \<Rightarrow> img)"

definition convert :: "env \<Rightarrow> image \<Rightarrow> string \<Rightarrow> py_error + image" where
  "convert env img m =
     (if mode img = m then Inr img
      else if mode img = ''RGBA'' \<and> m = ''RGB'' then Inr (rgba_to_rgb img)
      else lib_convert env img m)"

text \<open>
  \<open>rgba.getchannel('A').getextrema()\<close>, unpacked into two names: \<open>getchannel\<close> raises
  \<open>ValueError\<close> when there is no band \<open>A\<close>, and \<open>getextrema\<close> returns \<open>None\<close> for an
  image without pixels, which the unpacking turns into \<open>TypeError\<close>.
\<close>

definition alpha_extrema :: "image \<Rightarrow> py_error + (int \<times> int)" where
  "alpha_extrema img =
     (case im_raster img of
        RGBA ps \<Rightarrow>
          (case map alpha_of ps of
             [] \<Rightarrow> Inl TypeError
           | a # as \<Rightarrow> Inr (fold min as a, fold max as a))
      | _ \<Rightarrow> Inl ValueError)"

text \<open>\<open>Image.new('RGBA', size, color)\<close> and \<open>Image.new('RGB', size, color)\<close>.\<close>

definition new_rgba :: "int \<times> int \<Rightarrow> int \<times> int \<times> int \<times> int \<Rightarrow> image" where
  "new_rgba sz color =
     \<lparr>im_size = sz, im_transparency = False,
      im_raster = RGBA (replicate (nat (fst sz * snd sz)) color)\<rparr>"

definition new_rgb :: "int \<times> int \<Rightarrow> int \<times> int \<times> int \<Rightarrow> image" where
  "new_rgb sz color =
     \<lparr>im_size = sz, im_transparency = False,
      im_raster = RGB (replicate (nat (fst sz * snd sz)) color)\<rparr>"

text \<open>
  Modelled from the spec: \<open>Image.alpha_composite\<close> is library code, and the specification
  describes it as compositing with standard "over" alpha blending. With 8-bit
  channels, source \<open>s\<close> over destination \<open>d\<close> has alpha
  \<open>a\<^sub>o = a\<^sub>s + a\<^sub>d (255 - a\<^sub>s) / 255\<close> and colour
  \<open>(c\<^sub>s a\<^sub>s + c\<^sub>d a\<^sub>d (255 - a\<^sub>s) / 255) / a\<^sub>o\<close>, rounded to the nearest integer; where both
  are fully transparent the destination pixel is kept.
\<close>

definition over_channel :: "int \<Rightarrow> int \<Rightarrow> int \<Rightarrow> int \<Rightarrow> int" where
  "over_channel cs sa cd da =
     round ((of_int (cs * sa * 255 + cd * da * (255 - sa)) :: rat)
            / of_int (sa * 255 + da * (255 - sa)))"

definition over_px ::
  "int \<times> int \<times> int \<times> int \<Rightarrow> int \<times> int \<times> int \<times> int \<Rightarrow> int \<times> int \<times> int \<times> int" where
  "over_px d s =
     (case d of (dr, dg, db, da) \<Rightarrow>
      case s of (sr, sg, sb, sa) \<Rightarrow>
        if sa * 255 + da * (255 - sa) = 0 then d
        else (over_channel sr sa dr da, over_channel sg sa dg da, over_channel sb sa db da,
              round ((of_int (sa * 255 + da * (255 - sa)) :: rat) / 255)))"

definition alpha_composite :: "image \<Rightarrow> image \<Rightarrow> py_error + image" where
  "alpha_composite im1 im2 =
     (case (im_raster im1, im_raster im2) of
        (RGBA ds, RGBA ss) \<Rightarrow>
          (if im_size im1 = im_size im2
           then Inr (im1\<lparr>im_raster := RGBA (map2 over_px ds ss)\<rparr>)
           else Inl ValueError)
      | _ \<Rightarrow> Inl ValueError)"

section \<open>The image compressor\<close>

text \<open>
  The three preset names are Chinese strings in the source, given here by their UTF-8
  bytes: \<open>preset_custom\<close> is the default ("custom"), \<open>preset_compression_first\<close> favours
  size and \<open>preset_clarity_first\<close> favours fidelity.
\<close>

definition preset_custom :: string where
  "preset_custom =
     [CHR 0xE8, CHR 0x87, CHR 0xAA, CHR 0xE5, CHR 0xAE, CHR 0x9A, CHR 0xE4, CHR 0xB9, CHR 0x89]"

definition preset_compression_first :: string where
  "preset_compression_first =
     [CHR 0xE5, CHR 0x8E, CHR 0x8B, CHR 0xE7, CHR 0xBC, CHR 0xA9,
      CHR 0xE4, CHR 0xBC, CHR 0x98, CHR 0xE5, CHR 0x85, CHR 0x88]"

definition preset_clarity_first :: string where
  "preset_clarity_first =
     [CHR 0xE6, CHR 0xB8, CHR 0x85, CHR 0xE6, CHR 0x99, CHR 0xB0,
      CHR 0xE4, CHR 0xBC, CHR 0x98, CHR 0xE5, CHR 0x85, CHR 0x88]"

subsection \<open>Path and configuration helpers\<close>

fun contains_dotdot :: "string \<Rightarrow> bool" where
  "contains_dotdot (a # b # cs) = ((a = CHR ''.'' \<and> b = CHR ''.'') \<or> contains_dotdot (b # cs))"
| "contains_dotdot _ = False"

fun starts_with_unc :: "string \<Rightarrow> bool" where
  "starts_with_unc (a # b # cs) = (a = CHR 0x5C \<and> b = CHR 0x5C)"
| "starts_with_unc _ = False"

text \<open>
  \<open>Path(path).resolve()\<close>: on the canonical paths of the model it returns its argument;
  a name with a NUL character is refused with \<open>ValueError\<close>.
\<close>

definition path_resolve :: "string \<Rightarrow> py_error + string" where
  "path_resolve path = (if has_nul path then Inl ValueError else Inr path)"

definition normalize_path :: "string \<Rightarrow> string option" where
  "normalize_path path =
     (if path = [] then None
      else (case path_resolve path of
              Inl e \<Rightarrow> None
            | Inr path_str \<Rightarrow>
                if contains_dotdot path_str \<or> starts_with_unc path_str then None
                else Some path_str))"

definition clamp_int :: "pyval \<Rightarrow> int \<Rightarrow> int \<Rightarrow> int" where
  "clamp_int v min_value max_value =
     (let value_int = (case py_int v of Inl e \<Rightarrow> min_value | Inr n \<Rightarrow> n)
      in max min_value (min max_value value_int))"

definition get_image_preset :: "config \<Rightarrow> string" where
  "get_image_preset cfg =
     (case cfg_get cfg ''image_preset'' (PyStr preset_custom) of
        PyStr preset \<Rightarrow>
          (if preset \<notin> set [preset_custom, preset_compression_first, preset_clarity_first]
           then preset_custom else preset)
      | _ \<Rightarrow> preset_custom)"

subsection \<open>Resizing\<close>

definition resize_if_needed :: "env \<Rightarrow> image \<Rightarrow> int \<Rightarrow> int \<Rightarrow> py_error + image" where
  "resize_if_needed env img max_width max_height =
     (case im_size img of (width, height) \<Rightarrow>
        if width > max_width \<or> height > max_height then
          (case py_truediv max_width width of
             Inl e \<Rightarrow> Inl e
           | Inr rw \<Rightarrow>
          (case py_truediv max_height height of
             Inl e \<Rightarrow> Inl e
           | Inr rh \<Rightarrow>
               (let ratio = min rw rh;
                    new_width = py_trunc (py_fmul (py_float width) ratio);
                    new_height = py_trunc (py_fmul (py_float height) ratio)
                in resize env img (new_width, new_height) LANCZOS)))
        else Inr img)"

subsection \<open>Mode conversions\<close>

definition convert_for_jpeg :: "env \<Rightarrow> image \<Rightarrow> py_error + image" where
  "convert_for_jpeg env img =
     (if mode img = ''RGB'' then Inr img
      else if mode img \<in> set [''RGBA'', ''LA''] \<or> (mode img = ''P'' \<and> im_transparency img) then
        (case convert env img ''RGBA'' of
           Inl e \<Rightarrow> Inl e
         | Inr rgba \<Rightarrow> lib_paste env (new_rgb (im_size rgba) (255, 255, 255)) rgba)
      else convert env img ''RGB'')"

definition convert_for_png24 :: "env \<Rightarrow> image \<Rightarrow> py_error + image" where
  "convert_for_png24 env img =
     (if mode img = ''RGB'' then Inr img
      else if mode img \<in> set [''RGBA'', ''LA''] \<or> (mode img = ''P'' \<and> im_transparency img)
              \<or> im_transparency img then
        (case convert env img ''RGBA'' of
           Inl e \<Rightarrow> Inl e
         | Inr rgba \<Rightarrow>
             (case (case alpha_extrema rgba of Inl e \<Rightarrow> (0, 255) | Inr mm \<Rightarrow> mm) of
                (alpha_min, alpha_max) \<Rightarrow>
                  if alpha_min = 255 \<and> alpha_max = 255 then convert env rgba ''RGB''
                  else
                    (case alpha_composite (new_rgba (im_size rgba) (255, 255, 255, 255)) rgba of
                       Inl e \<Rightarrow> Inl e
                     | Inr composited \<Rightarrow> convert env composited ''RGB'')))
      else convert env img ''RGB'')"

subsection \<open>Palette quantization\<close>

definition maybe_quantize_png :: "env \<Rightarrow> image \<Rightarrow> int \<Rightarrow> dither \<Rightarrow> image" where
  "maybe_quantize_png env img colors dither_mode =
     (if mode img = ''P'' then img
      else
        (case (if mode img \<notin> set [''RGB'', ''RGBA''] then convert env img ''RGBA'' else Inr img) of
           Inl e \<Rightarrow> img
         | Inr img1 \<Rightarrow>
             (case lib_convert_adaptive env img1 colors dither_mode of
                Inr quantized \<Rightarrow> quantized
              | Inl e \<Rightarrow>
                  (let method = (if mode img1 = ''RGB'' then MEDIANCUT else FASTOCTREE)
                   in case lib_quantize env img1 colors method dither_mode of
                        Inr quantized \<Rightarrow> quantized
                      | Inl e' \<Rightarrow> img1))))"

subsection \<open>Encoders\<close>

definition save_jpeg ::
  "env \<Rightarrow> image \<Rightarrow> string \<Rightarrow> int \<Rightarrow> string \<Rightarrow> fs \<Rightarrow> (py_error + unit) \<times> fs" where
  "save_jpeg env img target_path photo_quality image_preset fs =
     (let quality =
            (if image_preset = preset_compression_first then min photo_quality 75
             else if image_preset = preset_clarity_first then max photo_quality 92
             else photo_quality)
      in case convert_for_jpeg env img of
           Inl e \<Rightarrow> (Inl e, fs)
         | Inr save_img \<Rightarrow>
             lib_save env save_img target_path
               [(''quality'', PyInt quality), (''optimize'', PyBool True),
                (''progressive'', PyBool True)] fs)"

definition save_webp ::
  "env \<Rightarrow> image \<Rightarrow> string \<Rightarrow> int \<Rightarrow> string \<Rightarrow> fs \<Rightarrow> (py_error + unit) \<times> fs" where
  "save_webp env img target_path photo_quality image_preset fs =
     (let quality =
            (if image_preset = preset_compression_first then min photo_quality 70
             else if image_preset = preset_clarity_first then max photo_quality 90
             else photo_quality)
      in lib_save env img target_path [(''quality'', PyInt quality), (''method'', PyInt 6)] fs)"

text \<open>
  The palette size of the low-quality PNG path,
  \<open>int(round(16 + (photo_quality / 70.0) * (256 - 16)))\<close> clamped to \<open>16..256\<close>, in
  floating-point arithmetic as the source computes it.
\<close>

definition png_colors :: "int \<Rightarrow> py_error + int" where
  "png_colors photo_quality =
     (case py_fdiv (py_float photo_quality) 70 of
        Inl e \<Rightarrow> Inl e
      | Inr t \<Rightarrow>
          (let colors = py_round (py_fadd 16 (py_fmul t (of_int (256 - 16))))
           in Inr (max 16 (min 256 colors))))"

definition save_png ::
  "env \<Rightarrow> image \<Rightarrow> string \<Rightarrow> int \<Rightarrow> string \<Rightarrow> fs \<Rightarrow> (py_error + unit) \<times> fs" where
  "save_png env img target_path photo_quality image_preset fs =
     (case
        (if image_preset = preset_clarity_first then Inr (6, img)
         else if image_preset = preset_compression_first then
           (case convert_for_png24 env img of
              Inl e \<Rightarrow> Inl e
            | Inr save_img \<Rightarrow> Inr (9, save_img))
         else
           (if photo_quality \<ge> 90 then Inr (6, img)
            else if photo_quality \<ge> 70 then Inr (9, img)
            else
              (case png_colors photo_quality of
                 Inl e \<Rightarrow> Inl e
               | Inr colors \<Rightarrow> Inr (9, maybe_quantize_png env img colors NONE))))
      of
        Inl e \<Rightarrow> (Inl e, fs)
      | Inr (compress_level, save_img) \<Rightarrow>
          lib_save env save_img target_path
            [(''optimize'', PyBool True), (''compress_level'', PyInt compress_level)] fs)"

definition save_image ::
  "env \<Rightarrow> image \<Rightarrow> string \<Rightarrow> string \<Rightarrow> int \<Rightarrow> string \<Rightarrow> fs \<Rightarrow> (py_error + unit) \<times> fs" where
  "save_image env img target_path target_ext photo_quality image_preset fs =
     (if target_ext \<in> set [''.jpg'', ''.jpeg''] then
        save_jpeg env img target_path photo_quality image_preset fs
      else if target_ext = ''.png'' then
        save_png env img target_path photo_quality image_preset fs
      else if target_ext = ''.webp'' then
        save_webp env img target_path photo_quality image_preset fs
      else lib_save env img target_path [(''optimize'', PyBool True)] fs)"

subsection \<open>The quantization acceptance check\<close>

record decision =
  accept :: bool
  mae :: pyfloat
  high_pct :: pyfloat

definition prepare_compare_images :: "env \<Rightarrow> image \<Rightarrow> image \<Rightarrow> py_error + (image \<times> image)" where
  "prepare_compare_images env original_img png8_img =
     (let max_sample = 256 in
      case (if mode original_img \<noteq> ''RGBA'' then convert env original_img ''RGBA''
            else Inr original_img) of
        Inl e \<Rightarrow> Inl e
      | Inr a \<Rightarrow>
      (case (if mode png8_img \<noteq> ''RGBA'' then convert env png8_img ''RGBA''
             else Inr png8_img) of
        Inl e \<Rightarrow> Inl e
      | Inr b0 \<Rightarrow>
      (case (if im_size a \<noteq> im_size b0 then resize env b0 (im_size a) NEAREST
             else Inr b0) of
        Inl e \<Rightarrow> Inl e
      | Inr b \<Rightarrow>
      (case im_size a of (width, height) \<Rightarrow>
         if width > max_sample \<or> height > max_sample then
           (case py_fdiv (py_float max_sample) (py_float width) of
              Inl e \<Rightarrow> Inl e
            | Inr rw \<Rightarrow>
           (case py_fdiv (py_float max_sample) (py_float height) of
              Inl e \<Rightarrow> Inl e
            | Inr rh \<Rightarrow>
               (let ratio = min rw rh;
                    new_width = max 1 (py_trunc (py_fmul (py_float width) ratio));
                    new_height = max 1 (py_trunc (py_fmul (py_float height) ratio))
                in case resize env a (new_width, new_height) BILINEAR of
                     Inl e \<Rightarrow> Inl e
                   | Inr a' \<Rightarrow>
                       (case resize env b (new_width, new_height) BILINEAR of
                          Inl e \<Rightarrow> Inl e
                        | Inr b' \<Rightarrow> Inr (a', b')))))
         else Inr (a, b)))))"

text \<open>\<open>abs(pa[i] - pb[i])\<close>.\<close>

definition abs_diff :: "pixel \<Rightarrow> pixel \<Rightarrow> nat \<Rightarrow> py_error + int" where
  "abs_diff pa pb i =
     (case px_index pa i of
        Inl e \<Rightarrow> Inl e
      | Inr x \<Rightarrow> (case px_index pb i of Inl e \<Rightarrow> Inl e | Inr y \<Rightarrow> Inr \<bar>x - y\<bar>))"

text \<open>
  The loop \<open>for i in range(total)\<close> of \<open>_compute_image_diff_stats\<close>, with
  \<open>total = min(len(data_a), len(data_b))\<close>: it runs over the two sequences in step and
  stops with the shorter one.
\<close>

fun diff_loop :: "pixel list \<Rightarrow> pixel list \<Rightarrow> int \<Rightarrow> int \<Rightarrow> py_error + (int \<times> int)" where
  "diff_loop (pa # as) (pb # bs) sum_abs high_count =
     (case abs_diff pa pb 0 of Inl e \<Rightarrow> Inl e | Inr dr \<Rightarrow>
      case abs_diff pa pb 1 of Inl e \<Rightarrow> Inl e | Inr dg \<Rightarrow>
      case abs_diff pa pb 2 of Inl e \<Rightarrow> Inl e | Inr db \<Rightarrow>
      case abs_diff pa pb 3 of Inl e \<Rightarrow> Inl e | Inr da \<Rightarrow>
        diff_loop as bs (sum_abs + (dr + dg + db + da))
          (if dr > 24 \<or> dg > 24 \<or> db > 24 \<or> da > 24 then high_count + 1 else high_count))"
| "diff_loop _ _ sum_abs high_count = Inr (sum_abs, high_count)"

definition compute_image_diff_stats :: "image \<Rightarrow> image \<Rightarrow> py_error + (pyfloat \<times> pyfloat)" where
  "compute_image_diff_stats img_a_rgba img_b_rgba =
     (let data_a = getdata img_a_rgba;
          data_b = getdata img_b_rgba;
          total = min (int (length data_a)) (int (length data_b))
      in if total \<le> 0 then Inr (0, 0)
         else
           (case diff_loop data_a data_b 0 0 of
              Inl e \<Rightarrow> Inl e
            | Inr (sum_abs, high_count) \<Rightarrow>
           (case py_fdiv (py_float sum_abs) (py_float (total * 4)) of
              Inl e \<Rightarrow> Inl e
            | Inr mae_v \<Rightarrow>
           (case py_fdiv (py_fmul (py_float high_count) 100) (py_float total) of
              Inl e \<Rightarrow> Inl e
            | Inr high_pct_v \<Rightarrow> Inr (mae_v, high_pct_v)))))"

definition should_accept_png8 :: "env \<Rightarrow> image \<Rightarrow> image \<Rightarrow> decision" where
  "should_accept_png8 env original_img png8_img =
     (case prepare_compare_images env original_img png8_img of
        Inl e \<Rightarrow> \<lparr>accept = False, mae = 999, high_pct = 100\<rparr>
      | Inr (original_rgba, png8_rgba) \<Rightarrow>
          (case compute_image_diff_stats original_rgba png8_rgba of
             Inl e \<Rightarrow> \<lparr>accept = False, mae = 999, high_pct = 100\<rparr>
           | Inr (mae_v, high_pct_v) \<Rightarrow>
               (let accept0 = True;
                    accept1 = (if mae_v > 6 then False else accept0);
                    accept2 = (if high_pct_v > 2 then False else accept1)
                in \<lparr>accept = accept2, mae = mae_v, high_pct = high_pct_v\<rparr>)))"

subsection \<open>The entry point\<close>

text \<open>\<open>os.path.isfile\<close>, \<open>Image.open\<close> and \<open>shutil.copy2\<close> on the file system of the model.\<close>

definition isfile :: "fs \<Rightarrow> string \<Rightarrow> bool" where
  "isfile fs p = (case fs p of Some (File b) \<Rightarrow> True | _ \<Rightarrow> False)"

definition image_open :: "env \<Rightarrow> fs \<Rightarrow> string \<Rightarrow> py_error + image" where
  "image_open env fs p =
     (case fs p of
        None \<Rightarrow> Inl (if has_nul p then ValueError else FileNotFoundError)
      | Some (File b) \<Rightarrow> lib_open env b
      | Some Dir \<Rightarrow> Inl IsADirectoryError
      | Some (Device b) \<Rightarrow> lib_open env b)"

text \<open>
  \<open>shutil.copy2(src, dst)\<close> opens the source first: a missing source raises
  \<open>FileNotFoundError\<close>, a directory \<open>IsADirectoryError\<close>, and nothing is written. A
  regular file and a character device are read to the end and their bytes written to
  the destination as a regular file.
\<close>

definition copy2 :: "env \<Rightarrow> string \<Rightarrow> string \<Rightarrow> fs \<Rightarrow> (py_error + unit) \<times> fs" where
  "copy2 env src dst fs =
     (case (case fs src of
              None \<Rightarrow> Inl (if has_nul src then ValueError else FileNotFoundError)
            | Some (File b) \<Rightarrow> Inr b
            | Some Dir \<Rightarrow> Inl IsADirectoryError
            | Some (Device b) \<Rightarrow> Inr b) of
        Inl e \<Rightarrow> (Inl e, fs)
      | Inr b \<Rightarrow>
          (case os_dest env src dst fs of
             Inl e \<Rightarrow> (Inl e, fs)
           | Inr p \<Rightarrow> (Inr (), fs(p \<mapsto> File b))))"

text \<open>
  The \<open>try\<close> block of \<open>compress\<close>. A bound that is not a number raises \<open>TypeError\<close> in
  the comparison or the division of \<open>_resize_if_needed\<close>; the conversion is done here,
  ahead of the call.
\<close>

definition compress_body ::
  "env \<Rightarrow> config \<Rightarrow> string \<Rightarrow> string \<Rightarrow> fs \<Rightarrow> (py_error + unit) \<times> fs" where
  "compress_body env cfg source_path target_path fs =
     (case normalize_path source_path of
        None \<Rightarrow> (Inl FileNotFoundError, fs)
      | Some normalized_source \<Rightarrow>
          if \<not> isfile fs normalized_source then (Inl FileNotFoundError, fs)
          else
            (case normalize_path (os_dirname env target_path) of
               None \<Rightarrow> (Inl ValueError, fs)
             | Some normalized_target \<Rightarrow>
            (case os_makedirs env (os_dirname env target_path) fs of
               Inl e \<Rightarrow> (Inl e, fs)
             | Inr u \<Rightarrow>
               (let photo_quality = clamp_int (cfg_get cfg ''photo_quality'' (PyInt 85)) 0 100;
                    max_width = cfg_get cfg ''max_photo_width'' (PyInt 2000);
                    max_height = cfg_get cfg ''max_photo_height'' (PyInt 2000);
                    image_preset = get_image_preset cfg;
                    target_ext = str_lower env (snd (os_splitext env target_path))
                in case image_open env fs normalized_source of
                     Inl e \<Rightarrow> (Inl e, fs)
                   | Inr img \<Rightarrow>
                  (case py_num max_width of
                     Inl e \<Rightarrow> (Inl e, fs)
                   | Inr mw \<Rightarrow>
                  (case py_num max_height of
                     Inl e \<Rightarrow> (Inl e, fs)
                   | Inr mh \<Rightarrow>
                  (case resize_if_needed env img mw mh of
                     Inl e \<Rightarrow> (Inl e, fs)
                   | Inr img' \<Rightarrow>
                       save_image env img' target_path target_ext photo_quality
                         image_preset fs)))))))"

text \<open>
  The three \<open>except\<close> clauses of \<open>compress\<close> have the same body: copy the source to
  the target and return \<open>False\<close>; if the copy raises, that exception is re-raised.
  \<open>IsADirectoryError\<close> and \<open>UnidentifiedImageError\<close> are subclasses of \<open>OSError\<close>, so the
  first clause catches them.
\<close>

definition copy_fallback ::
  "env \<Rightarrow> string \<Rightarrow> string \<Rightarrow> fs \<Rightarrow> (py_error + bool) \<times> fs" where
  "copy_fallback env source_path target_path fs =
     (case copy2 env source_path target_path fs of
        (Inr u, fs') \<Rightarrow> (Inr False, fs')
      | (Inl copy_error, fs') \<Rightarrow> (Inl copy_error, fs'))"

definition compress ::
  "env \<Rightarrow> config \<Rightarrow> string \<Rightarrow> string \<Rightarrow> fs \<Rightarrow> (py_error + bool) \<times> fs" where
  "compress env cfg source_path target_path fs =
     (case compress_body env cfg source_path target_path fs of
        (Inr u, fs') \<Rightarrow> (Inr True, fs')
      | (Inl e, fs') \<Rightarrow>
          if e \<in> set [FileNotFoundError, PermissionError, IsADirectoryError, OSError,
                      UnidentifiedImageError] then
            copy_fallback env source_path target_path fs'
          else if e \<in> set [ValueError, DecompressionBombError] then
            copy_fallback env source_path target_path fs'
          else copy_fallback env source_path target_path fs')"

section \<open>Reference environment and inputs\<close>

text \<open>
  A small environment on which the results below are instantiated: decoding fails
  unless the file starts with the byte \<open>0x89\<close> and then yields a one-pixel image,
  resampling keeps the pixel data, quantization yields a palette image, encoding writes
  an empty file at the target path, directories can always be created and every
  destination can be written.
\<close>

definition ref_env :: env where
  "ref_env =
     \<lparr>lib_open = (\<lambda>b. if b = [] \<or> hd b \<noteq> 0x89 then Inl UnidentifiedImageError
                       else Inr \<lparr>im_size = (1, 1), im_transparency = False,
                                 im_raster = RGB [(0, 0, 0)]\<rparr>),
      lib_convert = (\<lambda>img m. Inl ValueError),
      lib_resample = (\<lambda>img sz f. im_raster img),
      lib_paste = (\<lambda>bg fg. Inr bg),
      lib_convert_adaptive = (\<lambda>img colors d. Inr (img\<lparr>im_raster := Indexed []\<rparr>)),
      lib_quantize = (\<lambda>img colors m d. Inr (img\<lparr>im_raster := Indexed []\<rparr>)),
      lib_save = (\<lambda>img p kw fs. (Inr (), fs(p \<mapsto> File []))),
      os_dirname = (\<lambda>p. ''/out''),
      os_splitext = (\<lambda>p. (p, ''.png'')),
      str_lower = (\<lambda>s. s),
      os_makedirs = (\<lambda>p fs. Inr ()),
      os_dest = (\<lambda>src dst fs. Inr dst)\<rparr>"

definition rgba_image :: "int \<times> int \<Rightarrow> (int \<times> int \<times> int \<times> int) list \<Rightarrow> image" where
  "rgba_image sz ps = \<lparr>im_size = sz, im_transparency = False, im_raster = RGBA ps\<rparr>"

text \<open>An opaque black \<open>RGBA\<close> image of a given size.\<close>

definition blank_rgba :: "int \<times> int \<Rightarrow> image" where
  "blank_rgba sz = rgba_image sz (replicate (nat (fst sz * snd sz)) (0, 0, 0, 255))"

section \<open>JPEG quality\<close>

text \<open>The JPEG encoder invocation of \<open>_save_jpeg\<close> with a given effective quality.\<close>

definition jpeg_encode_with ::
  "env \<Rightarrow> image \<Rightarrow> string \<Rightarrow> int \<Rightarrow> fs \<Rightarrow> (py_error + unit) \<times> fs" where
  "jpeg_encode_with env img target_path quality fs =
     (case convert_for_jpeg env img of
        Inl e \<Rightarrow> (Inl e, fs)
      | Inr save_img \<Rightarrow>
          lib_save env save_img target_path
            [(''quality'', PyInt quality), (''optimize'', PyBool True),
             (''progressive'', PyBool True)] fs)"

lemma preset_names_distinct:
  "preset_custom \<noteq> preset_compression_first"
  "preset_custom \<noteq> preset_clarity_first"
  "preset_compression_first \<noteq> preset_clarity_first"
  by (simp_all add: preset_custom_def preset_compression_first_def preset_clarity_first_def)

text \<open>
  C5. For every quality \<open>q\<close> handed to the JPEG path, the encoder is called with quality
  \<open>min q 75\<close> under the compression-first preset, \<open>max q 92\<close> under the clarity-first
  preset and \<open>q\<close> itself under the custom preset; in particular 95 becomes 75 under
  compression-first and 50 becomes 92 under clarity-first.
\<close>

theorem save_jpeg_effective_quality:
  "save_jpeg env img target_path q preset_compression_first fs
     = jpeg_encode_with env img target_path (min q 75) fs
   \<and> save_jpeg env img target_path q preset_clarity_first fs
     = jpeg_encode_with env img target_path (max q 92) fs
   \<and> save_jpeg env img target_path q preset_custom fs
     = jpeg_encode_with env img target_path q fs
   \<and> save_jpeg env img target_path 95 preset_compression_first fs
     = jpeg_encode_with env img target_path 75 fs
   \<and> save_jpeg env img target_path 50 preset_clarity_first fs
     = jpeg_encode_with env img target_path 92 fs"
  using preset_names_distinct
  by (simp add: save_jpeg_def jpeg_encode_with_def)

theorem save_jpeg_effective_quality_witness:
  "save_jpeg ref_env (rgba_image (1, 1) [(1, 2, 3, 255)]) ''/out/a.jpg'' 95
      preset_compression_first Map.empty
     = jpeg_encode_with ref_env (rgba_image (1, 1) [(1, 2, 3, 255)]) ''/out/a.jpg'' 75 Map.empty
   \<and> save_jpeg ref_env (rgba_image (1, 1) [(1, 2, 3, 255)]) ''/out/a.jpg'' 50
      preset_clarity_first Map.empty
     = jpeg_encode_with ref_env (rgba_image (1, 1) [(1, 2, 3, 255)]) ''/out/a.jpg'' 92 Map.empty"
  using save_jpeg_effective_quality
          [of ref_env "rgba_image (1, 1) [(1, 2, 3, 255)]" "''/out/a.jpg''" 95 Map.empty]
  by simp

section \<open>Effective photo quality\<close>





section \<open>Quantizing a palette image\<close>

text \<open>
  C8. For an image already in palette mode, \<open>_maybe_quantize_png\<close> returns the image
  unchanged, whatever the requested colour count and dither mode.
\<close>

theorem maybe_quantize_palette_identity:
  "mode img = ''P'' \<Longrightarrow> maybe_quantize_png env img colors dither_mode = img"
  by (simp add: maybe_quantize_png_def)

theorem maybe_quantize_palette_identity_witness:
  "mode \<lparr>im_size = (1, 1), im_transparency = False, im_raster = Indexed [7]\<rparr> = ''P''
   \<and> maybe_quantize_png ref_env
        \<lparr>im_size = (1, 1), im_transparency = False, im_raster = Indexed [7]\<rparr> 64 FLOYDSTEINBERG
      = \<lparr>im_size = (1, 1), im_transparency = False, im_raster = Indexed [7]\<rparr>"
proof -
  have m: "mode \<lparr>im_size = (1, 1), im_transparency = False, im_raster = Indexed [7]\<rparr> = ''P''"
    by (simp add: mode_def)
  from m maybe_quantize_palette_identity [OF m, of ref_env 64 FLOYDSTEINBERG]
  show ?thesis by simp
qed

section \<open>Rounding to binary64\<close>

text \<open>
  Facts about \<open>fl64\<close>: the exponent found by \<open>ilog2\<close> brackets its argument, rounding
  moves a value by at most half a unit in the last place (a relative error of at most
  \<open>2\<^sup>-\<^sup>5\<^sup>3\<close>), never crosses a number of the grid it rounds to, and leaves integers below
  \<open>2\<^sup>5\<^sup>3\<close> unchanged.
\<close>

lemma pow2_powi: "pow2 e = 2 powi e"
  by (simp add: pow2_def power_int_def inverse_eq_divide power_one_over)

lemma pow2_pos: "0 < pow2 e"
  by (simp add: pow2_powi)

lemma pow2_add: "pow2 (a + b) = pow2 a * pow2 b"
  by (simp add: pow2_powi power_int_add)

lemma pow2_mono: "a \<le> b \<Longrightarrow> pow2 a \<le> pow2 b"
  by (simp add: pow2_powi power_int_increasing)

lemma pow2_nat: "0 \<le> e \<Longrightarrow> pow2 e = of_int (2 ^ nat e)"
  by (simp add: pow2_def)

lemma ilog2_bounds:
  assumes "0 < x"
  shows "pow2 (ilog2 x) \<le> x" and "x < pow2 (ilog2 x + 1)"
proof -
  obtain p q where pq: "quotient_of x = (p, q)" by (cases "quotient_of x")
  then have x: "x = of_int p / of_int q" and q: "0 < q"
    by (simp_all add: quotient_of_div quotient_of_denom_pos)
  with assms have p: "0 < p" by (simp add: zero_less_divide_iff)
  define bp bq where "bp = bitlen p" and "bq = bitlen q"
  from bitlen_bounds [OF p] have p1: "2 ^ nat (bp - 1) \<le> p" and p2: "p < 2 ^ nat bp"
    by (simp_all add: bp_def)
  from bitlen_bounds [OF q] have q1: "2 ^ nat (bq - 1) \<le> q" and q2: "q < 2 ^ nat bq"
    by (simp_all add: bq_def)
  have bp1: "1 \<le> bp" using p by (simp add: bp_def bitlen_alt_def)
  have bq1: "1 \<le> bq" using q by (simp add: bq_def bitlen_alt_def)
  have P1: "pow2 (bp - 1) \<le> of_int p" using p1 bp1 by (simp add: pow2_nat)
  have P2: "of_int p < pow2 bp" using p2 bp1 by (simp add: pow2_nat)
  have Q1: "pow2 (bq - 1) \<le> of_int q" using q1 bq1 by (simp add: pow2_nat)
  have Q2: "of_int q < pow2 bq" using q2 bq1 by (simp add: pow2_nat)
  have qpos: "(0::rat) < of_int q" using q by simp
  have up: "x < pow2 (bp - bq + 1)"
  proof -
    have "of_int p < pow2 bp" by (rule P2)
    also have "pow2 bp = pow2 (bp - bq + 1) * pow2 (bq - 1)"
      by (simp add: pow2_add [symmetric])
    also have "\<dots> \<le> pow2 (bp - bq + 1) * of_int q"
      using Q1 pow2_pos [of "bp - bq + 1"] by (simp add: mult_left_mono)
    finally show ?thesis using qpos by (simp add: x pos_divide_less_eq)
  qed
  have lo: "pow2 (bp - bq - 1) < x"
  proof -
    have "pow2 (bp - bq - 1) * of_int q < pow2 (bp - bq - 1) * pow2 bq"
      using Q2 pow2_pos [of "bp - bq - 1"] by (simp add: mult_strict_left_mono)
    also have "\<dots> = pow2 (bp - 1)" by (simp add: pow2_add [symmetric])
    also have "\<dots> \<le> of_int p" by (rule P1)
    finally show ?thesis using qpos by (simp add: x pos_less_divide_eq)
  qed
  have il: "ilog2 x = (if pow2 (bp - bq) \<le> x then bp - bq else bp - bq - 1)"
    by (simp add: ilog2_def pq bp_def bq_def)
  show "pow2 (ilog2 x) \<le> x" using lo by (simp add: il)
  show "x < pow2 (ilog2 x + 1)" using up by (simp add: il not_le)
qed

lemma ilog2_unique:
  assumes "0 < x" "pow2 e \<le> x" "x < pow2 (e + 1)"
  shows "ilog2 x = e"
proof (rule ccontr)
  assume ne: "ilog2 x \<noteq> e"
  note b = ilog2_bounds [OF assms(1)]
  show False
  proof (cases "ilog2 x < e")
    case True
    then have "pow2 (ilog2 x + 1) \<le> pow2 e" by (intro pow2_mono) simp
    with b(2) assms(2) show False by simp
  next
    case False
    with ne have "pow2 (e + 1) \<le> pow2 (ilog2 x)" by (intro pow2_mono) simp
    with b(1) assms(3) show False by simp
  qed
qed

lemma rhe_err: "\<bar>of_int (round_half_even y) - y\<bar> \<le> 1 / 2"
proof -
  have "of_int \<lfloor>y\<rfloor> \<le> y" "y < of_int \<lfloor>y\<rfloor> + 1" by linarith+
  then show ?thesis
    by (auto simp: round_half_even_def Let_def abs_le_iff)
qed

lemma rhe_le: "y \<le> of_int n \<Longrightarrow> round_half_even y \<le> n"
proof -
  assume a: "y \<le> of_int n"
  have "of_int (round_half_even y) \<le> y + 1 / 2" using rhe_err [of y] by linarith
  then have "of_int (round_half_even y) < (of_int (n + 1) :: rat)" using a by simp
  then have "round_half_even y < n + 1" by (simp only: of_int_less_iff)
  then show ?thesis by simp
qed

lemma rhe_ge: "of_int n \<le> y \<Longrightarrow> n \<le> round_half_even y"
proof -
  assume a: "of_int n \<le> y"
  have "y - 1 / 2 \<le> of_int (round_half_even y)" using rhe_err [of y] by linarith
  then have "(of_int (n - 1) :: rat) < of_int (round_half_even y)" using a by simp
  then have "n - 1 < round_half_even y" by (simp only: of_int_less_iff)
  then show ?thesis by simp
qed

lemma rhe_of_int: "round_half_even (of_int n) = n"
  by (simp add: round_half_even_def)

lemma rhe_near:
  assumes "\<bar>y - of_int n\<bar> < 1 / 2"
  shows "round_half_even y = n"
proof -
  have "\<bar>(of_int (round_half_even y) :: rat) - of_int n\<bar> < 1"
    using rhe_err [of y] assms by linarith
  then have "\<bar>(of_int (round_half_even y - n) :: rat)\<bar> < of_int 1" by simp
  then have "\<bar>round_half_even y - n\<bar> < 1"
    by (simp only: of_int_abs [symmetric] of_int_less_iff)
  then show ?thesis by simp
qed

lemma fl64_eq:
  "x \<noteq> 0 \<Longrightarrow>
   fl64 x = of_int (round_half_even (x / pow2 (ilog2 \<bar>x\<bar> - 52))) * pow2 (ilog2 \<bar>x\<bar> - 52)"
  by (simp add: fl64_def Let_def)

lemma fl64_abs_err:
  assumes "x \<noteq> 0"
  shows "\<bar>fl64 x - x\<bar> \<le> pow2 (ilog2 \<bar>x\<bar> - 52) / 2"
proof -
  define s where "s = pow2 (ilog2 \<bar>x\<bar> - 52)"
  have s: "0 < s" by (simp add: s_def pow2_pos)
  have f: "fl64 x = of_int (round_half_even (x / s)) * s"
    using assms by (simp add: fl64_eq s_def)
  have "fl64 x - x = (of_int (round_half_even (x / s)) - x / s) * s"
    using s by (simp add: f algebra_simps)
  then have "\<bar>fl64 x - x\<bar> = \<bar>of_int (round_half_even (x / s)) - x / s\<bar> * s"
    using s by (simp add: abs_mult)
  also have "\<dots> \<le> (1 / 2) * s"
    using rhe_err [of "x / s"] s by (intro mult_right_mono) simp_all
  finally show ?thesis by (simp add: s_def)
qed

lemma fl64_rel: "\<bar>fl64 x - x\<bar> \<le> \<bar>x\<bar> / 2 ^ 53"
proof (cases "x = 0")
  case True
  then show ?thesis by (simp add: fl64_def)
next
  case False
  then have ax: "0 < \<bar>x\<bar>" by simp
  have "pow2 (ilog2 \<bar>x\<bar> - 52) * 2 ^ 52 = pow2 (ilog2 \<bar>x\<bar> - 52) * pow2 52"
    by (simp add: pow2_def)
  also have "\<dots> = pow2 (ilog2 \<bar>x\<bar>)" by (simp add: pow2_add [symmetric])
  also have "\<dots> \<le> \<bar>x\<bar>" using ax by (rule ilog2_bounds)
  finally have "pow2 (ilog2 \<bar>x\<bar> - 52) / 2 \<le> \<bar>x\<bar> / 2 ^ 53" by simp
  with fl64_abs_err [OF False] show ?thesis by linarith
qed

lemma fl64_grid_le:
  assumes "0 < x" and "x \<le> of_int k * pow2 (ilog2 x - 52)"
  shows "fl64 x \<le> of_int k * pow2 (ilog2 x - 52)"
proof -
  define s where "s = pow2 (ilog2 x - 52)"
  have s: "0 < s" by (simp add: s_def pow2_pos)
  have "x / s \<le> of_int k" using assms(2) s by (simp add: s_def pos_divide_le_eq)
  then have "round_half_even (x / s) \<le> k" by (rule rhe_le)
  then have "(of_int (round_half_even (x / s)) :: rat) \<le> of_int k" by simp
  then have "of_int (round_half_even (x / s)) * s \<le> of_int k * s"
    using s by (intro mult_right_mono) simp_all
  then show ?thesis using assms(1) by (simp add: fl64_eq s_def)
qed

lemma fl64_grid_ge:
  assumes "0 < x" and "of_int k * pow2 (ilog2 x - 52) \<le> x"
  shows "of_int k * pow2 (ilog2 x - 52) \<le> fl64 x"
proof -
  define s where "s = pow2 (ilog2 x - 52)"
  have s: "0 < s" by (simp add: s_def pow2_pos)
  have "of_int k \<le> x / s" using assms(2) s by (simp add: s_def pos_le_divide_eq)
  then have "k \<le> round_half_even (x / s)" by (rule rhe_ge)
  then have "(of_int k :: rat) \<le> of_int (round_half_even (x / s))" by simp
  then have "of_int k * s \<le> of_int (round_half_even (x / s)) * s"
    using s by (intro mult_right_mono) simp_all
  then show ?thesis using assms(1) by (simp add: fl64_eq s_def)
qed

lemma fl64_pos:
  assumes "0 < x"
  shows "0 < fl64 x"
proof -
  have "of_int (2 ^ 52) * pow2 (ilog2 x - 52) = pow2 52 * pow2 (ilog2 x - 52)"
    by (simp add: pow2_def)
  also have "\<dots> = pow2 (ilog2 x)" by (simp add: pow2_add [symmetric])
  finally have e: "of_int (2 ^ 52) * pow2 (ilog2 x - 52) = pow2 (ilog2 x)" .
  have "of_int (2 ^ 52) * pow2 (ilog2 x - 52) \<le> x"
    unfolding e using assms by (rule ilog2_bounds)
  from fl64_grid_ge [OF assms this] have "pow2 (ilog2 x) \<le> fl64 x" by (simp only: e)
  with pow2_pos [of "ilog2 x"] show ?thesis by linarith
qed

lemma ilog2_less:
  assumes "0 < x" "x < pow2 n"
  shows "ilog2 x < n"
proof (rule ccontr)
  assume "\<not> ilog2 x < n"
  then have "pow2 n \<le> pow2 (ilog2 x)" by (intro pow2_mono) simp
  with ilog2_bounds(1) [OF assms(1)] assms(2) show False by simp
qed

lemma fl64_of_int:
  assumes "\<bar>n\<bar> < 2 ^ 53"
  shows "fl64 (of_int n) = of_int n"
proof (cases "n = 0")
  case True
  then show ?thesis by (simp add: fl64_def)
next
  case False
  define x :: rat where "x = of_int n"
  define e where "e = ilog2 \<bar>x\<bar> - 52"
  have ax: "0 < \<bar>x\<bar>" using False by (simp add: x_def)
  have "\<bar>x\<bar> < pow2 53" using assms
    by (simp add: x_def pow2_def of_int_abs [symmetric] del: of_int_abs) 
  then have "ilog2 \<bar>x\<bar> < 53" using ax by (intro ilog2_less)
  then have e0: "e \<le> 0" by (simp add: e_def)
  then have pe: "pow2 e = 1 / 2 ^ nat (- e)" by (cases "e = 0") (simp_all add: pow2_def)
  have "x / pow2 e = of_int (n * 2 ^ nat (- e))" by (simp add: pe x_def)
  then have "round_half_even (x / pow2 e) = n * 2 ^ nat (- e)" by (simp only: rhe_of_int)
  then have "of_int (round_half_even (x / pow2 e)) * pow2 e = x" by (simp add: pe x_def)
  then show ?thesis using False by (simp add: fl64_eq x_def e_def)
qed

lemma fl64_value:
  assumes "0 < \<bar>x\<bar>" "pow2 (e + 52) \<le> \<bar>x\<bar>" "\<bar>x\<bar> < pow2 (e + 52 + 1)"
    and "\<bar>x / pow2 e - of_int n\<bar> < 1 / 2"
  shows "fl64 x = of_int n * pow2 e"
proof -
  have "ilog2 \<bar>x\<bar> = e + 52" using assms(1-3) by (rule ilog2_unique)
  moreover have "round_half_even (x / pow2 e) = n" using assms(4) by (rule rhe_near)
  ultimately show ?thesis using assms(1) by (simp add: fl64_eq)
qed

lemma scaled_trunc_le:
  assumes w: "0 < w" "w < 2 ^ 53" and m: "0 \<le> m" "m < 2 ^ 52"
    and r: "0 \<le> r" "r \<le> fl64 (of_int m / of_int w)"
  shows "0 \<le> py_trunc (py_fmul (py_float w) r) \<and> py_trunc (py_fmul (py_float w) r) \<le> m"
proof -
  have fw: "py_float w = of_int w" using w by (simp add: py_float_def fl64_of_int)
  define p :: rat where "p = of_int w * r"
  have p0: "0 \<le> p" using w r by (simp add: p_def)
  show ?thesis
  proof (cases "p = 0")
    case True
    then show ?thesis using m by (simp add: fw py_fmul_def p_def [symmetric] fl64_def py_trunc_def)
  next
    case False
    with p0 have ppos: "0 < p" by simp
    then have rpos: "0 < r" using w by (simp add: p_def zero_less_mult_iff)
    have mpos: "0 < m"
    proof (rule ccontr)
      assume "\<not> 0 < m"
      with m have "m = 0" by simp
      with r(2) rpos show False by (simp add: fl64_def)
    qed
    define x1 :: rat where "x1 = of_int m / of_int w"
    have x1pos: "0 < x1" using mpos w by (simp add: x1_def)
    have "fl64 x1 \<le> x1 + x1 / 2 ^ 53" using fl64_rel [of x1] x1pos by linarith
    with r(2) have "r \<le> x1 + x1 / 2 ^ 53" by (simp add: x1_def)
    then have "p \<le> of_int w * (x1 + x1 / 2 ^ 53)"
      using w unfolding p_def by (intro mult_left_mono) simp_all
    also have "\<dots> = of_int m + of_int m / 2 ^ 53" using w by (simp add: x1_def algebra_simps)
    finally have pb: "p \<le> of_int m + of_int m / 2 ^ 53" .
    have "(of_int m :: rat) < of_int (2 ^ 52)" using m by (simp only: of_int_less_iff)
    then have mq: "(of_int m :: rat) / 2 ^ 53 < 1 / 2" by simp
    define B :: rat where "B = of_int (2 * m + 1) / 2"
    have pB: "p \<le> B" using pb mq by (simp add: B_def)
    have "(of_int (m + 1) :: rat) \<le> of_int (2 ^ 52)" using m by (simp only: of_int_le_iff)
    then have "B < pow2 52" by (simp add: B_def pow2_def)
    with pB have "p < pow2 52" by simp
    then have "ilog2 p < 52" using ppos by (intro ilog2_less)
    define e where "e = ilog2 p - 52"
    have e1: "e \<le> - 1" using \<open>ilog2 p < 52\<close> by (simp add: e_def)
    define j where "j = nat (- e - 1)"
    have ne: "nat (- e) = Suc j" using e1 by (simp add: j_def)
    have pe: "pow2 e = 1 / (2 * 2 ^ j)" using e1 by (simp add: pow2_def ne)
    have Bk: "B = of_int ((2 * m + 1) * 2 ^ j) * pow2 e" by (simp add: B_def pe)
    have "fl64 p \<le> of_int ((2 * m + 1) * 2 ^ j) * pow2 (ilog2 p - 52)"
      using ppos pB unfolding Bk e_def by (rule fl64_grid_le)
    then have fB: "fl64 p \<le> B" by (simp only: Bk e_def)
    have fpos: "0 < fl64 p" using ppos by (rule fl64_pos)
    have "fl64 p < of_int (m + 1)" using fB by (simp add: B_def)
    then have "\<lfloor>fl64 p\<rfloor> < m + 1" by (simp only: floor_less_iff)
    moreover have "0 \<le> \<lfloor>fl64 p\<rfloor>" using fpos by simp
    ultimately show ?thesis using fpos
      by (simp add: fw py_fmul_def p_def [symmetric] py_trunc_def)
  qed
qed



section \<open>PNG encoding under the custom preset\<close>








section \<open>Resizing within bounds\<close>

lemma fl64_nonneg: "0 \<le> x \<Longrightarrow> 0 \<le> fl64 x"
  using fl64_pos [of x] by (cases "x = 0") (simp_all add: fl64_def less_imp_le)

lemma fl64_le_int:
  assumes x: "0 < x" "x \<le> of_int n" and n: "n < 2 ^ 53"
  shows "fl64 x \<le> of_int n"
proof -
  have "(of_int n :: rat) < of_int (2 ^ 53)" using n by (simp only: of_int_less_iff)
  then have "x < pow2 53" using x(2) by (simp add: pow2_def)
  then have "ilog2 x < 53" using x(1) by (intro ilog2_less)
  define e where "e = ilog2 x - 52"
  have e0: "e \<le> 0" using \<open>ilog2 x < 53\<close> by (simp add: e_def)
  then have pe: "pow2 e = 1 / 2 ^ nat (- e)" by (cases "e = 0") (simp_all add: pow2_def)
  have nk: "of_int n = of_int (n * 2 ^ nat (- e)) * pow2 e" by (simp add: pe)
  have "fl64 x \<le> of_int (n * 2 ^ nat (- e)) * pow2 (ilog2 x - 52)"
    using x unfolding nk e_def by (rule fl64_grid_le)
  then show ?thesis by (simp only: nk e_def)
qed

lemma scaled_trunc_le_self:
  assumes w: "0 < w" "w < 2 ^ 53" and r: "0 \<le> r" "r \<le> 1"
  shows "0 \<le> py_trunc (py_fmul (py_float w) r) \<and> py_trunc (py_fmul (py_float w) r) \<le> w"
proof -
  have fw: "py_float w = of_int w" using w by (simp add: py_float_def fl64_of_int)
  define p :: rat where "p = of_int w * r"
  have p0: "0 \<le> p" using w r by (simp add: p_def)
  have pw: "p \<le> of_int w" using w r unfolding p_def
    by (simp add: mult_left_le)
  show ?thesis
  proof (cases "p = 0")
    case True
    then show ?thesis using w
      by (simp add: fw py_fmul_def p_def [symmetric] fl64_def py_trunc_def)
  next
    case False
    with p0 have ppos: "0 < p" by simp
    have f1: "fl64 p \<le> of_int w" using ppos pw w(2) by (rule fl64_le_int)
    have f0: "0 < fl64 p" using ppos by (rule fl64_pos)
    have "\<lfloor>fl64 p\<rfloor> \<le> w" using f1 by (simp add: floor_le_iff)
    moreover have "0 \<le> \<lfloor>fl64 p\<rfloor>" using f0 by simp
    ultimately show ?thesis using f0
      by (simp add: fw py_fmul_def p_def [symmetric] py_trunc_def)
  qed
qed

lemma py_truediv_Inr:
  "py_truediv a b = Inr r \<Longrightarrow> b \<noteq> 0 \<and> r = fl64 (of_int a / of_int b)"
  by (auto simp add: py_truediv_def Let_def split: if_splits)

lemma py_truediv_in_range:
  assumes "0 \<le> a" "0 < b" "a < 2 ^ 1023"
  shows "py_truediv a b = Inr (fl64 (of_int a / of_int b))"
proof -
  define x :: rat where "x = of_int a / of_int b"
  have x0: "0 \<le> x" using assms by (simp add: x_def)
  have "(1 :: rat) \<le> of_int b" using assms(2) by simp
  then have "x * 1 \<le> x * of_int b" using x0 by (intro mult_left_mono) simp_all
  then have xa: "x \<le> of_int a" using assms(2) by (simp add: x_def)
  have "(of_int a :: rat) < of_int (2 ^ 1023)" using assms(3) by (simp only: of_int_less_iff)
  then have a2: "(of_int a :: rat) < 2 ^ 1023" by simp
  have "x / 2 ^ 53 \<le> x" using x0 by (simp add: divide_le_eq)
  moreover have "\<bar>fl64 x - x\<bar> \<le> x / 2 ^ 53" using fl64_rel [of x] x0 by simp
  ultimately have "fl64 x \<le> 2 * x" by linarith
  with xa a2 have "fl64 x < 2 * 2 ^ 1023" by linarith
  moreover have "0 \<le> fl64 x" using x0 by (rule fl64_nonneg)
  ultimately have "\<not> 2 ^ 1024 \<le> \<bar>fl64 x\<bar>" by simp
  then show ?thesis using assms(2) by (simp add: py_truediv_def x_def)
qed

lemma quotient_below_one:
  assumes "0 \<le> m" "m < h"
  shows "fl64 (of_int m / of_int h) \<le> 1"
proof (cases "m = 0")
  case True
  then show ?thesis by (simp add: fl64_def)
next
  case False
  with assms have "0 < (of_int m / of_int h :: rat)" "(of_int m / of_int h :: rat) \<le> of_int 1"
    by simp_all
  then have "fl64 (of_int m / of_int h) \<le> of_int 1" by (rule fl64_le_int) simp
  then show ?thesis by simp
qed

text \<open>
  The new size stays within one bound: when the side exceeds its bound the rounded
  quotient limits the product, and when it fits the ratio is at most 1.
\<close>

lemma new_side_le:
  assumes w: "0 < w" "w < 2 ^ 31" and m: "0 \<le> m"
    and r: "0 \<le> r" "r \<le> fl64 (of_int m / of_int w)" "w \<le> m \<longrightarrow> r \<le> 1"
  shows "py_trunc (py_fmul (py_float w) r) \<le> m"
proof (cases "w \<le> m")
  case True
  with r(3) have "r \<le> 1" by simp
  with scaled_trunc_le_self [of w r] w r(1) True show ?thesis by simp
next
  case False
  then have "m < 2 ^ 52" using w(2) by simp
  with scaled_trunc_le [of w m r] w m r(1,2) show ?thesis by simp
qed

lemma resize_branch_bounds:
  assumes sz: "im_size img = (w, h)"
    and w: "0 < w" "w < 2 ^ 31" and h: "0 < h" "h < 2 ^ 31"
    and mw: "0 \<le> mw" and mh: "0 \<le> mh"
    and qw: "py_truediv mw w = Inr rw" and qh: "py_truediv mh h = Inr rh"
  shows "(w \<le> mw \<and> h \<le> mh \<longrightarrow> resize_if_needed env img mw mh = Inr img)
    \<and> (\<not> (w \<le> mw \<and> h \<le> mh) \<longrightarrow>
         (let ratio = min rw rh;
              new_width = py_trunc (py_fmul (py_float w) ratio);
              new_height = py_trunc (py_fmul (py_float h) ratio)
          in 1 \<le> new_width \<and> 1 \<le> new_height \<longrightarrow>
               resize_if_needed env img mw mh
                 = Inr \<lparr>im_size = (new_width, new_height),
                        im_transparency = im_transparency img,
                        im_raster = lib_resample env img (new_width, new_height) LANCZOS\<rparr>
               \<and> new_width \<le> mw \<and> new_height \<le> mh))"
proof -
  define ratio where "ratio = min rw rh"
  define nw where "nw = py_trunc (py_fmul (py_float w) ratio)"
  define nh where "nh = py_trunc (py_fmul (py_float h) ratio)"
  have rwv: "rw = fl64 (of_int mw / of_int w)" using py_truediv_Inr [OF qw] by simp
  have rhv: "rh = fl64 (of_int mh / of_int h)" using py_truediv_Inr [OF qh] by simp
  have fit: "resize_if_needed env img mw mh = Inr img" if "w \<le> mw \<and> h \<le> mh"
    using that by (simp add: resize_if_needed_def sz)
  have big: "resize_if_needed env img mw mh = resize env img (nw, nh) LANCZOS"
    if "\<not> (w \<le> mw \<and> h \<le> mh)"
    using that by (auto simp add: resize_if_needed_def sz qw qh ratio_def nw_def nh_def Let_def)
  have "0 \<le> rw" "0 \<le> rh" using w h mw mh by (simp_all add: rwv rhv fl64_nonneg)
  then have r0: "0 \<le> ratio" by (simp add: ratio_def)
  have bounds: "nw \<le> mw \<and> nh \<le> mh" if big: "\<not> (w \<le> mw \<and> h \<le> mh)"
  proof -
    have one_w: "ratio \<le> 1" if "w \<le> mw"
    proof -
      from that big have "mh < h" by simp
      then have "rh \<le> 1" unfolding rhv using mh by (intro quotient_below_one)
      then show ?thesis by (simp add: ratio_def min_le_iff_disj)
    qed
    have one_h: "ratio \<le> 1" if "h \<le> mh"
    proof -
      from that big have "mw < w" by simp
      then have "rw \<le> 1" unfolding rwv using mw by (intro quotient_below_one)
      then show ?thesis by (simp add: ratio_def min_le_iff_disj)
    qed
    have "ratio \<le> fl64 (of_int mw / of_int w)" "ratio \<le> fl64 (of_int mh / of_int h)"
      by (simp_all add: ratio_def rwv rhv)
    with one_w one_h new_side_le [of w mw ratio] new_side_le [of h mh ratio] w h mw mh r0
    show ?thesis by (simp add: nw_def nh_def)
  qed
  have res: "resize_if_needed env img mw mh
      = Inr \<lparr>im_size = (nw, nh), im_transparency = im_transparency img,
             im_raster = lib_resample env img (nw, nh) LANCZOS\<rparr>"
    if b: "\<not> (w \<le> mw \<and> h \<le> mh)" and p: "1 \<le> nw \<and> 1 \<le> nh"
  proof -
    from bounds [OF b] b have "\<not> (w = nw \<and> h = nh)" by auto
    with p show ?thesis by (auto simp add: big [OF b] resize_def sz)
  qed
  from fit res bounds show ?thesis
    by (simp add: Let_def ratio_def [symmetric] nw_def [symmetric] nh_def [symmetric])
qed

text \<open>
  C3 (as amended). If both dimensions fit, the image is returned unchanged. Otherwise,
  for an image with positive dimensions (below \<open>2\<^sup>3\<^sup>1\<close>, as the imaging library stores
  them) and non-negative bounds for which the quotients \<open>max_width / width\<close> and
  \<open>max_height / height\<close> are floats: with \<open>ratio\<close> the smaller of the two rounded
  quotients and the new size the truncated double-precision products
  \<open>int(width * ratio)\<close> and \<open>int(height * ratio)\<close>, whenever both are at least 1 the
  result is an image of exactly that size, and its width and height do not exceed
  the bounds. Nothing is said of a new size with a zero.
\<close>

theorem resize_if_needed_bounds:
  "im_size img = (w, h) \<Longrightarrow>
   (w \<le> mw \<and> h \<le> mh \<longrightarrow> resize_if_needed env img mw mh = Inr img)
   \<and> (\<not> (w \<le> mw \<and> h \<le> mh)
        \<and> 0 < w \<and> w < 2 ^ 31 \<and> 0 < h \<and> h < 2 ^ 31 \<and> 0 \<le> mw \<and> 0 \<le> mh
        \<and> py_truediv mw w = Inr rw \<and> py_truediv mh h = Inr rh \<longrightarrow>
         (let ratio = min rw rh;
              new_width = py_trunc (py_fmul (py_float w) ratio);
              new_height = py_trunc (py_fmul (py_float h) ratio)
          in 1 \<le> new_width \<and> 1 \<le> new_height \<longrightarrow>
               resize_if_needed env img mw mh
                 = Inr \<lparr>im_size = (new_width, new_height),
                        im_transparency = im_transparency img,
                        im_raster = lib_resample env img (new_width, new_height) LANCZOS\<rparr>
               \<and> new_width \<le> mw \<and> new_height \<le> mh))"
proof (intro conjI impI)
  assume "im_size img = (w, h)" "w \<le> mw \<and> h \<le> mh"
  then show "resize_if_needed env img mw mh = Inr img"
    by (simp add: resize_if_needed_def)
next
  assume sz: "im_size img = (w, h)"
    and a: "\<not> (w \<le> mw \<and> h \<le> mh)
        \<and> 0 < w \<and> w < 2 ^ 31 \<and> 0 < h \<and> h < 2 ^ 31 \<and> 0 \<le> mw \<and> 0 \<le> mh
        \<and> py_truediv mw w = Inr rw \<and> py_truediv mh h = Inr rh"
  from a have b: "\<not> (w \<le> mw \<and> h \<le> mh)" by (rule conjunct1)
  from a resize_branch_bounds [of img w h mw mh rw rh env] sz
  show "let ratio = min rw rh;
              new_width = py_trunc (py_fmul (py_float w) ratio);
              new_height = py_trunc (py_fmul (py_float h) ratio)
          in 1 \<le> new_width \<and> 1 \<le> new_height \<longrightarrow>
               resize_if_needed env img mw mh
                 = Inr \<lparr>im_size = (new_width, new_height),
                        im_transparency = im_transparency img,
                        im_raster = lib_resample env img (new_width, new_height) LANCZOS\<rparr>
               \<and> new_width \<le> mw \<and> new_height \<le> mh"
    using b by (simp only: simp_thms)
qed

lemma im_size_blank_rgba: "im_size (blank_rgba sz) = sz"
  by (simp add: blank_rgba_def rgba_image_def)

lemma fl64_half: "fl64 (1 / 2) = 1 / 2"
proof -
  have "fl64 (1 / 2) = of_int 4503599627370496 * pow2 (- 53)"
    by (rule fl64_value) (simp_all add: pow2_def)
  then show ?thesis by (simp add: pow2_def)
qed

lemma fl64_two_thirds: "fl64 (2 / 3) = 6004799503160661 / 9007199254740992"
proof -
  have "fl64 (2 / 3) = of_int 6004799503160661 * pow2 (- 53)"
    by (rule fl64_value) (simp_all add: pow2_def)
  then show ?thesis by (simp add: pow2_def)
qed

lemma fl64_small_ints:
  "fl64 20 = 20" "fl64 2105 = 2105" "fl64 100 = 100" "fl64 2000 = 2000" "fl64 1500 = 1500"
  "fl64 4000 = 4000" "fl64 3000 = 3000" "fl64 49 = 49" "fl64 5 = 5" "fl64 1 = 1"
  using fl64_of_int [of 20] fl64_of_int [of 2105] fl64_of_int [of 100] fl64_of_int [of 2000]
    fl64_of_int [of 1500] fl64_of_int [of 4000] fl64_of_int [of 3000] fl64_of_int [of 49]
    fl64_of_int [of 5] fl64_of_int [of 1]
  by simp_all

theorem resize_if_needed_bounds_witness:
  "resize_if_needed ref_env (blank_rgba (4000, 3000)) 2000 2000
     = Inr \<lparr>im_size = (2000, 1500), im_transparency = False,
            im_raster = lib_resample ref_env (blank_rgba (4000, 3000)) (2000, 1500) LANCZOS\<rparr>
   \<and> resize_if_needed ref_env (blank_rgba (800, 600)) 2000 2000 = Inr (blank_rgba (800, 600))"
proof -
  have qw: "py_truediv 2000 4000 = Inr (1 / 2)"
    by (simp add: py_truediv_def fl64_half)
  have qh: "py_truediv 2000 3000 = Inr (6004799503160661 / 9007199254740992)"
    by (simp add: py_truediv_def fl64_two_thirds)
  have t: "im_transparency (blank_rgba (4000, 3000)) = False"
    by (simp add: blank_rgba_def rgba_image_def)
  from resize_if_needed_bounds
         [where img = "blank_rgba (4000, 3000)" and w = 4000 and h = 3000 and mw = 2000
            and mh = 2000 and rw = "1 / 2" and rh = "6004799503160661 / 9007199254740992"
            and env = ref_env] qw qh
  have "resize_if_needed ref_env (blank_rgba (4000, 3000)) 2000 2000
     = Inr \<lparr>im_size = (2000, 1500), im_transparency = False,
            im_raster = lib_resample ref_env (blank_rgba (4000, 3000)) (2000, 1500) LANCZOS\<rparr>"
    by (simp add: im_size_blank_rgba t py_float_def py_fmul_def py_trunc_def fl64_small_ints)
  moreover from resize_if_needed_bounds
         [where img = "blank_rgba (800, 600)" and w = 800 and h = 600 and mw = 2000
            and mh = 2000 and env = ref_env]
  have "resize_if_needed ref_env (blank_rgba (800, 600)) 2000 2000 = Inr (blank_rgba (800, 600))"
    by (simp add: im_size_blank_rgba)
  ultimately show ?thesis by simp
qed

text \<open>
  The claim as stated fails in four ways. For a \<open>2105 \<times> 100\<close> image and bounds
  \<open>2000 \<times> 2000\<close> the exact product \<open>2105 \<cdot> (2000 / 2105)\<close> is 2000, but the rounded
  quotient is slightly below \<open>2000 / 2105\<close>, the rounded product is slightly below 2000,
  and the result has width 1999. An image of width 0 and height 3000 is not resized:
  the quotient \<open>max_width / width\<close> raises \<open>ZeroDivisionError\<close>. With the bounds \<open>-1\<close> and
  5, a \<open>49 \<times> 1\<close> image gets the new width 0, above the bound, and is not resized. With
  the bound \<open>2\<^sup>1\<^sup>0\<^sup>2\<^sup>4\<close> for the width, a \<open>1 \<times> 3\<close> image is not resized: the quotient
  raises \<open>OverflowError\<close>.
\<close>

lemma fl64_400_421: "fl64 (400 / 421) = 8557909030632771 / 9007199254740992"
proof -
  have "fl64 (400 / 421) = of_int 8557909030632771 * pow2 (- 53)"
    by (rule fl64_value) (simp_all add: pow2_def)
  then show ?thesis by (simp add: pow2_def)
qed

lemma fl64_width_product:
  "fl64 (18014398509481982955 / 9007199254740992) = 8796093022207999 / 4398046511104"
proof -
  have "fl64 (18014398509481982955 / 9007199254740992) = of_int 8796093022207999 * pow2 (- 42)"
    by (rule fl64_value) (simp_all add: pow2_def)
  then show ?thesis by (simp add: pow2_def)
qed

lemma fl64_height_product:
  "fl64 (213947725765819275 / 2251799813685248) = 1671466607545463 / 17592186044416"
proof -
  have "fl64 (213947725765819275 / 2251799813685248) = of_int 6685866430181852 * pow2 (- 46)"
    by (rule fl64_value) (simp_all add: pow2_def)
  then show ?thesis by (simp add: pow2_def)
qed

lemma fl64_minus_49th: "fl64 (- (1 / 49)) = - (5882252574524729 / 288230376151711744)"
proof -
  have "fl64 (- (1 / 49)) = of_int (- 5882252574524729) * pow2 (- 58)"
    by (rule fl64_value) (simp_all add: pow2_def)
  then show ?thesis by (simp add: pow2_def)
qed

lemma fl64_minus_49th_product:
  "fl64 (- (288230376151711721 / 288230376151711744))
     = - (9007199254740991 / 9007199254740992)"
proof -
  have "fl64 (- (288230376151711721 / 288230376151711744))
          = of_int (- 9007199254740991) * pow2 (- 53)"
    by (rule fl64_value) (simp_all add: pow2_def)
  then show ?thesis by (simp add: pow2_def)
qed

lemma fl64_pow_1024: "fl64 (2 ^ 1024) = 2 ^ 1024"
proof -
  have "fl64 (2 ^ 1024) = of_int 4503599627370496 * pow2 972"
    by (rule fl64_value) (simp_all add: pow2_def)
  then show ?thesis by (simp add: pow2_def)
qed

theorem resize_if_needed_floor_counterexample:
  "resize_if_needed ref_env (blank_rgba (2105, 100)) 2000 2000
     = Inr \<lparr>im_size = (1999, 95), im_transparency = False,
            im_raster = lib_resample ref_env (blank_rgba (2105, 100)) (1999, 95) LANCZOS\<rparr>
   \<and> (\<lfloor>2105 * min (2000 / 2105) (2000 / 100 :: rat)\<rfloor>,
       \<lfloor>100 * min (2000 / 2105) (2000 / 100 :: rat)\<rfloor>) = (2000, 95)
   \<and> resize_if_needed ref_env (blank_rgba (0, 3000)) 2000 2000 = Inl ZeroDivisionError
   \<and> resize_if_needed ref_env (blank_rgba (49, 1)) (- 1) 5 = Inl ValueError
   \<and> py_trunc (py_fmul (py_float 49) (min (fl64 (- 1 / 49)) (fl64 (5 / 1)))) = 0
   \<and> resize_if_needed ref_env (blank_rgba (1, 3)) (2 ^ 1024) 2 = Inl OverflowError"
proof -
  have big: "\<not> (2 :: rat) ^ 1024 \<le> 20" "\<not> (2 :: rat) ^ 1024 \<le> 5" "\<not> (2 :: rat) ^ 1024 \<le> 1"
    by simp_all
  have t: "im_transparency (blank_rgba sz) = False" for sz
    by (simp add: blank_rgba_def rgba_image_def)
  have f: "\<lfloor>8796093022207999 / 4398046511104 :: rat\<rfloor> = 1999"
    "\<lfloor>1671466607545463 / 17592186044416 :: rat\<rfloor> = 95"
    by (simp_all add: floor_eq_iff)
  have a: "resize_if_needed ref_env (blank_rgba (2105, 100)) 2000 2000
     = Inr \<lparr>im_size = (1999, 95), im_transparency = False,
            im_raster = lib_resample ref_env (blank_rgba (2105, 100)) (1999, 95) LANCZOS\<rparr>"
    by (simp add: resize_if_needed_def resize_def im_size_blank_rgba t py_truediv_def
          py_float_def py_fmul_def py_trunc_def Let_def f big
          fl64_400_421 fl64_width_product fl64_height_product fl64_small_ints)
  have c: "(\<lfloor>2105 * min (2000 / 2105) (2000 / 100 :: rat)\<rfloor>,
       \<lfloor>100 * min (2000 / 2105) (2000 / 100 :: rat)\<rfloor>) = (2000, 95)"
    by (simp add: floor_eq_iff)
  have d: "resize_if_needed ref_env (blank_rgba (0, 3000)) 2000 2000 = Inl ZeroDivisionError"
    by (simp add: resize_if_needed_def im_size_blank_rgba py_truediv_def)
  have g: "\<lceil>- (9007199254740991 / 9007199254740992) :: rat\<rceil> = 0"
    "\<lceil>- (5882252574524729 / 288230376151711744) :: rat\<rceil> = 0"
    by (simp_all add: ceiling_eq_iff)
  have n: "py_trunc (py_fmul (py_float 49) (min (fl64 (- 1 / 49)) (fl64 (5 / 1)))) = 0"
    by (simp add: py_float_def py_fmul_def py_trunc_def g
          fl64_minus_49th fl64_minus_49th_product fl64_small_ints)
  have e: "resize_if_needed ref_env (blank_rgba (49, 1)) (- 1) 5 = Inl ValueError"
    by (simp add: resize_if_needed_def resize_def im_size_blank_rgba py_truediv_def
          py_float_def py_fmul_def py_trunc_def Let_def g big
          fl64_minus_49th fl64_minus_49th_product fl64_small_ints)
  have o: "resize_if_needed ref_env (blank_rgba (1, 3)) (2 ^ 1024) 2 = Inl OverflowError"
    by (simp add: resize_if_needed_def im_size_blank_rgba py_truediv_def
          fl64_pow_1024 [simplified])
  from a c d e n o show ?thesis by simp
qed

section \<open>The acceptance decision\<close>

lemma abs_diff_self:
  "i < 4 \<Longrightarrow> abs_diff (Tuple [r, g, b, a]) (Tuple [r, g, b, a]) i = Inr 0"
  by (simp add: abs_diff_def)

lemma diff_loop_self:
  "diff_loop (map (\<lambda>(r, g, b, a). Tuple [r, g, b, a]) ps)
             (map (\<lambda>(r, g, b, a). Tuple [r, g, b, a]) ps) s k = Inr (s, k)"
proof (induction ps arbitrary: s k)
  case Nil
  show ?case by simp
next
  case (Cons p ps)
  obtain r g b a where p: "p = (r, g, b, a)" by (cases p)
  show ?case using Cons.IH [of s k] by (simp add: p abs_diff_self)
qed

lemma py_float_nonzero: "0 < n \<Longrightarrow> py_float n \<noteq> 0"
  using fl64_pos [of "of_int n"] by (simp add: py_float_def)

lemma py_float_zero: "py_float 0 = 0"
  by (simp add: py_float_def fl64_def)

lemma diff_stats_self:
  assumes "im_raster img = RGBA ps"
  shows "compute_image_diff_stats img img = Inr (0, 0)"
proof (cases "ps = []")
  case True
  then show ?thesis by (simp add: compute_image_diff_stats_def getdata_def assms)
next
  case False
  then have len: "0 < int (length ps)" by simp
  have a: "py_fdiv (py_float 0) (py_float (int (length ps) * 4)) = Inr 0"
    using len py_float_nonzero [of "int (length ps) * 4"]
    by (simp add: py_fdiv_def py_float_zero fl64_def)
  have b: "py_fdiv (py_fmul (py_float 0) 100) (py_float (int (length ps))) = Inr 0"
    using len py_float_nonzero [of "int (length ps)"]
    by (simp add: py_fdiv_def py_fmul_def py_float_zero fl64_def)
  show ?thesis using False a b
    by (simp add: compute_image_diff_stats_def getdata_def assms diff_loop_self)
qed

lemma mode_RGBA_iff: "mode img = ''RGBA'' \<longleftrightarrow> (\<exists>ps. im_raster img = RGBA ps)"
  by (cases "im_raster img") (simp_all add: mode_def)

lemma prepare_self_equal:
  assumes "mode img = ''RGBA''" and "prepare_compare_images env img img = Inr (a, b)"
  shows "a = b"
  using assms
  by (auto simp add: prepare_compare_images_def Let_def
           split: prod.splits sum.splits if_splits)

lemma prepare_small:
  assumes "mode img = ''RGBA''" and "fst (im_size img) \<le> 256" "snd (im_size img) \<le> 256"
  shows "prepare_compare_images env img img = Inr (img, img)"
  using assms by (cases "im_size img") (simp add: prepare_compare_images_def)

lemma accept_of_equal_stats:
  assumes "prepare_compare_images env x y = Inr (a, b)"
    and "compute_image_diff_stats a b = Inr (m, h)"
  shows "should_accept_png8 env x y = \<lparr>accept = (m \<le> 6 \<and> h \<le> 2), mae = m, high_pct = h\<rparr>"
  using assms by (auto simp add: should_accept_png8_def Let_def)

lemma sentinel_of_prepare_error:
  assumes "prepare_compare_images env x y = Inl e"
  shows "should_accept_png8 env x y = \<lparr>accept = False, mae = 999, high_pct = 100\<rparr>"
  using assms by (simp add: should_accept_png8_def)

lemma sentinel_of_stats_error:
  assumes "prepare_compare_images env x y = Inr (a, b)"
    and "compute_image_diff_stats a b = Inl e"
  shows "should_accept_png8 env x y = \<lparr>accept = False, mae = 999, high_pct = 100\<rparr>"
  using assms by (simp add: should_accept_png8_def)

text \<open>
  C2. The acceptance decision is \<open>accept = True\<close> exactly when the computed mean absolute
  error is at most 6.0 and the high-difference percentage is at most 2.0, and it reports
  the two computed values; when preparing the images or computing the statistics raises
  an exception, the decision is \<open>accept = False\<close> with \<open>mae = 999.0\<close> and
  \<open>high_pct = 100.0\<close>.
\<close>

theorem should_accept_png8_decision:
  "(\<forall>a b m h. prepare_compare_images env x y = Inr (a, b) \<longrightarrow>
       compute_image_diff_stats a b = Inr (m, h) \<longrightarrow>
       should_accept_png8 env x y = \<lparr>accept = (m \<le> 6 \<and> h \<le> 2), mae = m, high_pct = h\<rparr>)
   \<and> (\<forall>e. prepare_compare_images env x y = Inl e \<longrightarrow>
       should_accept_png8 env x y = \<lparr>accept = False, mae = 999, high_pct = 100\<rparr>)
   \<and> (\<forall>a b e. prepare_compare_images env x y = Inr (a, b) \<longrightarrow>
       compute_image_diff_stats a b = Inl e \<longrightarrow>
       should_accept_png8 env x y = \<lparr>accept = False, mae = 999, high_pct = 100\<rparr>)"
  using accept_of_equal_stats sentinel_of_prepare_error sentinel_of_stats_error by blast

lemma stats_red_shift:
  "compute_image_diff_stats (rgba_image (1, 1) [(0, 0, 0, 255)])
     (rgba_image (1, 1) [(100, 0, 0, 255)]) = Inr (25, 100)"
  using fl64_of_int [of 100] fl64_of_int [of 4] fl64_of_int [of 25] fl64_of_int [of 1]
  by (simp add: compute_image_diff_stats_def getdata_def rgba_image_def abs_diff_def
        py_fdiv_def py_fmul_def py_float_def)

theorem should_accept_png8_decision_witness:
  "should_accept_png8 ref_env (rgba_image (1, 1) [(0, 0, 0, 255)])
      (rgba_image (1, 1) [(100, 0, 0, 255)])
     = \<lparr>accept = False, mae = 25, high_pct = 100\<rparr>
   \<and> should_accept_png8 ref_env (rgba_image (1, 1) [(0, 0, 0, 255)])
      (rgba_image (1, 1) [(0, 0, 0, 255)])
     = \<lparr>accept = True, mae = 0, high_pct = 0\<rparr>
   \<and> should_accept_png8 ref_env (rgba_image (1, 1) [(0, 0, 0, 255)])
      \<lparr>im_size = (1, 1), im_transparency = False, im_raster = Indexed [0]\<rparr>
     = \<lparr>accept = False, mae = 999, high_pct = 100\<rparr>"
proof -
  let ?x = "rgba_image (1, 1) [(0, 0, 0, 255)]"
  let ?y = "rgba_image (1, 1) [(100, 0, 0, 255)]"
  let ?p = "\<lparr>im_size = (1, 1), im_transparency = False, im_raster = Indexed [0]\<rparr>"
  have p1: "prepare_compare_images ref_env ?x ?y = Inr (?x, ?y)"
    by (simp add: prepare_compare_images_def rgba_image_def mode_def)
  have p2: "prepare_compare_images ref_env ?x ?x = Inr (?x, ?x)"
    by (simp add: prepare_compare_images_def rgba_image_def mode_def)
  have p3: "prepare_compare_images ref_env ?x ?p = Inl ValueError"
    by (simp add: prepare_compare_images_def rgba_image_def mode_def convert_def ref_env_def)
  have s2: "compute_image_diff_stats ?x ?x = Inr (0, 0)"
    by (rule diff_stats_self) (simp add: rgba_image_def)
  from should_accept_png8_decision [of ref_env ?x ?y] p1 stats_red_shift
  have "should_accept_png8 ref_env ?x ?y = \<lparr>accept = False, mae = 25, high_pct = 100\<rparr>"
    by simp
  moreover from should_accept_png8_decision [of ref_env ?x ?x] p2 s2
  have "should_accept_png8 ref_env ?x ?x = \<lparr>accept = True, mae = 0, high_pct = 0\<rparr>"
    by simp
  moreover from should_accept_png8_decision [of ref_env ?x ?p] p3
  have "should_accept_png8 ref_env ?x ?p = \<lparr>accept = False, mae = 999, high_pct = 100\<rparr>"
    by simp
  ultimately show ?thesis by simp
qed

text \<open>
  C9 (as amended). For every \<open>RGBA\<close> image the difference statistics of the image against
  itself are \<open>(0.0, 0.0)\<close>. The acceptance decision on that pair is \<open>accept = True\<close> with
  both values 0.0 when neither dimension exceeds 256 and, for larger images, whenever
  the preparation of the comparison completes and its downsampled image is \<open>RGBA\<close>.
\<close>

theorem self_comparison:
  assumes "im_raster img = RGBA ps"
  shows "compute_image_diff_stats img img = Inr (0, 0)
    \<and> (fst (im_size img) \<le> 256 \<and> snd (im_size img) \<le> 256 \<longrightarrow>
         should_accept_png8 env img img = \<lparr>accept = True, mae = 0, high_pct = 0\<rparr>)
    \<and> (\<forall>a b. prepare_compare_images env img img = Inr (a, b) \<and> mode a = ''RGBA'' \<longrightarrow>
         should_accept_png8 env img img = \<lparr>accept = True, mae = 0, high_pct = 0\<rparr>)"
proof -
  have m: "mode img = ''RGBA''" using assms by (simp add: mode_RGBA_iff)
  have s: "compute_image_diff_stats img img = Inr (0, 0)" using assms by (rule diff_stats_self)
  have gen: "should_accept_png8 env img img = \<lparr>accept = True, mae = 0, high_pct = 0\<rparr>"
    if p: "prepare_compare_images env img img = Inr (a, b)" and ma: "mode a = ''RGBA''" for a b
  proof -
    have ab: "a = b" using m p by (rule prepare_self_equal)
    from ma obtain qs where "im_raster a = RGBA qs" by (auto simp add: mode_RGBA_iff)
    then have "compute_image_diff_stats a b = Inr (0, 0)" unfolding ab [symmetric]
      by (rule diff_stats_self)
    with p show ?thesis using accept_of_equal_stats by fastforce
  qed
  have small: "should_accept_png8 env img img = \<lparr>accept = True, mae = 0, high_pct = 0\<rparr>"
    if "fst (im_size img) \<le> 256 \<and> snd (im_size img) \<le> 256"
    using gen [OF prepare_small [OF m] m] that by simp
  from s gen small show ?thesis by blast
qed

theorem self_comparison_witness:
  "compute_image_diff_stats (rgba_image (2, 1) [(1, 2, 3, 4), (5, 6, 7, 8)])
     (rgba_image (2, 1) [(1, 2, 3, 4), (5, 6, 7, 8)]) = Inr (0, 0)
   \<and> should_accept_png8 ref_env (rgba_image (2, 1) [(1, 2, 3, 4), (5, 6, 7, 8)])
       (rgba_image (2, 1) [(1, 2, 3, 4), (5, 6, 7, 8)])
     = \<lparr>accept = True, mae = 0, high_pct = 0\<rparr>"
  using self_comparison [of "rgba_image (2, 1) [(1, 2, 3, 4), (5, 6, 7, 8)]"
                           "[(1, 2, 3, 4), (5, 6, 7, 8)]" ref_env]
  by (simp add: rgba_image_def)

text \<open>
  An \<open>RGBA\<close> image of width 0 and height 300 has more than 256 rows, so the preparation
  divides by \<open>float(0)\<close>; the \<open>ZeroDivisionError\<close> is caught and the image is rejected
  against itself with the sentinel values.
\<close>

theorem self_comparison_counterexample:
  "mode (rgba_image (0, 300) []) = ''RGBA''
   \<and> should_accept_png8 ref_env (rgba_image (0, 300) []) (rgba_image (0, 300) [])
     = \<lparr>accept = False, mae = 999, high_pct = 100\<rparr>"
  by (simp add: should_accept_png8_def prepare_compare_images_def rgba_image_def mode_def
        py_fdiv_def py_float_zero)

section \<open>Flattening to 24-bit\<close>

lemma fold_min_const: "(\<forall>x \<in> set xs. x = v) \<Longrightarrow> fold min xs (v::int) = v"
  by (induction xs) simp_all

lemma fold_max_const: "(\<forall>x \<in> set xs. x = v) \<Longrightarrow> fold max xs (v::int) = v"
  by (induction xs) simp_all

lemma fold_min_le: "fold min xs (a::int) \<le> a \<and> (\<forall>x \<in> set xs. fold min xs a \<le> x)"
proof (induction xs arbitrary: a)
  case Nil
  show ?case by simp
next
  case (Cons y ys)
  from Cons.IH [of "min y a"] show ?case by auto
qed

lemma fold_max_ge: "a \<le> fold max xs (a::int) \<and> (\<forall>x \<in> set xs. x \<le> fold max xs a)"
proof (induction xs arbitrary: a)
  case Nil
  show ?case by simp
next
  case (Cons y ys)
  from Cons.IH [of "max y a"] show ?case by auto
qed

lemma alpha_extrema_opaque_iff:
  assumes "im_raster img = RGBA ps"
  shows "alpha_extrema img = Inr (255, 255) \<longleftrightarrow> ps \<noteq> [] \<and> (\<forall>p \<in> set ps. alpha_of p = 255)"
proof (cases ps)
  case Nil
  then show ?thesis by (simp add: alpha_extrema_def assms)
next
  case (Cons p qs)
  have e: "alpha_extrema img
           = Inr (fold min (map alpha_of qs) (alpha_of p), fold max (map alpha_of qs) (alpha_of p))"
    by (simp add: alpha_extrema_def assms Cons)
  show ?thesis
  proof
    assume "alpha_extrema img = Inr (255, 255)"
    then have mn: "fold min (map alpha_of qs) (alpha_of p) = 255"
      and mx: "fold max (map alpha_of qs) (alpha_of p) = 255" by (simp_all add: e)
    from fold_min_le [of "map alpha_of qs" "alpha_of p"] fold_max_ge [of "alpha_of p" "map alpha_of qs"]
    have "alpha_of p = 255" "\<forall>x \<in> set (map alpha_of qs). x = 255"
      unfolding mn mx by (simp, metis order_antisym)
    then show "ps \<noteq> [] \<and> (\<forall>p \<in> set ps. alpha_of p = 255)" by (simp add: Cons)
  next
    assume "ps \<noteq> [] \<and> (\<forall>p \<in> set ps. alpha_of p = 255)"
    then have "alpha_of p = 255" "\<forall>x \<in> set (map alpha_of qs). x = 255" by (simp_all add: Cons)
    then show "alpha_extrema img = Inr (255, 255)"
      by (simp add: e fold_min_const fold_max_const)
  qed
qed

lemma convert_rgba_to_rgb:
  "im_raster x = RGBA ps \<Longrightarrow> convert env x ''RGB'' = Inr (x\<lparr>im_raster := RGB (map rgb_of ps)\<rparr>)"
  by (simp add: convert_def mode_def rgba_to_rgb_def)

lemma png24_rgb: "mode img = ''RGB'' \<Longrightarrow> convert_for_png24 env img = Inr img"
  by (simp add: convert_for_png24_def)

lemma png24_opaque:
  assumes "mode img \<noteq> ''RGB''" "mode img \<in> {''RGBA'', ''LA''} \<or> im_transparency img"
    and "convert env img ''RGBA'' = Inr rgba" "im_raster rgba = RGBA ps"
    and "ps \<noteq> [] \<and> (\<forall>p \<in> set ps. alpha_of p = 255)"
  shows "convert_for_png24 env img = Inr (rgba\<lparr>im_raster := RGB (map rgb_of ps)\<rparr>)"
proof -
  have "alpha_extrema rgba = Inr (255, 255)"
    using assms(4,5) by (simp add: alpha_extrema_opaque_iff)
  then show ?thesis using assms(1-4)
    by (auto simp add: convert_for_png24_def convert_rgba_to_rgb)
qed

lemma png24_composite:
  assumes "mode img \<noteq> ''RGB''" "mode img \<in> {''RGBA'', ''LA''} \<or> im_transparency img"
    and "convert env img ''RGBA'' = Inr rgba" "im_raster rgba = RGBA ps"
    and "\<not> (ps \<noteq> [] \<and> (\<forall>p \<in> set ps. alpha_of p = 255))"
  shows "convert_for_png24 env img
    = Inr ((new_rgba (im_size rgba) (255, 255, 255, 255))
             \<lparr>im_raster := RGB (map rgb_of (map2 over_px
                 (replicate (nat (fst (im_size rgba) * snd (im_size rgba))) (255, 255, 255, 255))
                 ps))\<rparr>)"
proof -
  have ne: "alpha_extrema rgba \<noteq> Inr (255, 255)"
    using assms(4,5) by (simp add: alpha_extrema_opaque_iff)
  have sel: "(case (case alpha_extrema rgba of Inl e \<Rightarrow> (0, 255) | Inr mm \<Rightarrow> mm) of
               (alpha_min, alpha_max) \<Rightarrow> alpha_min = 255 \<and> alpha_max = 255) = False"
    using ne by (cases "alpha_extrema rgba") auto
  have comp: "alpha_composite (new_rgba (im_size rgba) (255, 255, 255, 255)) rgba
     = Inr ((new_rgba (im_size rgba) (255, 255, 255, 255))
              \<lparr>im_raster := RGBA (map2 over_px
                 (replicate (nat (fst (im_size rgba) * snd (im_size rgba))) (255, 255, 255, 255))
                 ps)\<rparr>)"
    by (simp add: alpha_composite_def new_rgba_def assms(4))
  show ?thesis using assms(1-3) sel
    by (auto simp add: convert_for_png24_def comp convert_rgba_to_rgb split: prod.splits sum.splits)
qed

lemma over_px_transparent:
  "over_px (255, 255, 255, 255) (r, g, b, 0) = (255, 255, 255, 255)"
  by (simp add: over_px_def over_channel_def)

lemma map2_over_transparent:
  "(\<forall>p \<in> set ps. alpha_of p = 0) \<Longrightarrow>
   map2 over_px (replicate n (255, 255, 255, 255)) ps
     = replicate (min n (length ps)) (255, 255, 255, 255)"
proof (induction ps arbitrary: n)
  case Nil
  show ?case by simp
next
  case (Cons p ps)
  obtain r g b a where p: "p = (r, g, b, a)" by (cases p)
  with Cons.prems have a: "a = 0" by simp
  show ?case
  proof (cases n)
    case 0
    then show ?thesis by simp
  next
    case (Suc k)
    with Cons a p show ?thesis by (simp add: over_px_transparent)
  qed
qed

lemma png24_transparent:
  assumes "im_raster img = RGBA ps" "\<forall>p \<in> set ps. alpha_of p = 0"
  shows "convert_for_png24 env img
    = Inr \<lparr>im_size = im_size img, im_transparency = False,
           im_raster = RGB (replicate (min (nat (fst (im_size img) * snd (im_size img))) (length ps))
                              (255, 255, 255))\<rparr>"
proof -
  have m: "mode img = ''RGBA''" using assms(1) by (simp add: mode_def)
  have c: "convert env img ''RGBA'' = Inr img" by (simp add: convert_def m)
  have n: "\<not> (ps \<noteq> [] \<and> (\<forall>p \<in> set ps. alpha_of p = 255))" using assms(2) by (cases ps) auto
  have "convert_for_png24 env img
    = Inr ((new_rgba (im_size img) (255, 255, 255, 255))
             \<lparr>im_raster := RGB (map rgb_of (map2 over_px
                 (replicate (nat (fst (im_size img) * snd (im_size img))) (255, 255, 255, 255))
                 ps))\<rparr>)"
    by (rule png24_composite [OF _ _ c assms(1) n]) (simp_all add: m)
  then show ?thesis using assms(2) by (simp add: map2_over_transparent new_rgba_def)
qed

text \<open>
  C6. In the PNG-24 flatten conversion an \<open>RGB\<close> image passes through unchanged. An image
  that carries transparency is first converted to \<open>RGBA\<close>; when the alpha band of that
  conversion is uniformly 255 the result is its direct \<open>RGB\<close> conversion, with the
  \<open>RGB\<close> channel values unchanged (for an \<open>RGBA\<close> source, those of the source itself);
  otherwise it is composited over an opaque white background by over-blending and the
  alpha band is dropped. In particular an \<open>RGBA\<close> image with alpha uniformly 0 yields an
  \<open>RGB\<close> image of the same size in which every pixel is white.
\<close>

theorem convert_for_png24_cases:
  "(mode img = ''RGB'' \<longrightarrow> convert_for_png24 env img = Inr img)
   \<and> (\<forall>rgba ps.
        mode img \<noteq> ''RGB'' \<and> (mode img \<in> {''RGBA'', ''LA''} \<or> im_transparency img)
        \<and> convert env img ''RGBA'' = Inr rgba \<and> im_raster rgba = RGBA ps \<longrightarrow>
        (if ps \<noteq> [] \<and> (\<forall>p \<in> set ps. alpha_of p = 255)
         then convert_for_png24 env img = Inr (rgba\<lparr>im_raster := RGB (map rgb_of ps)\<rparr>)
         else convert_for_png24 env img
           = Inr ((new_rgba (im_size rgba) (255, 255, 255, 255))
                    \<lparr>im_raster := RGB (map rgb_of (map2 over_px
                        (replicate (nat (fst (im_size rgba) * snd (im_size rgba)))
                           (255, 255, 255, 255))
                        ps))\<rparr>)))
   \<and> (\<forall>ps. im_raster img = RGBA ps \<and> ps \<noteq> [] \<and> (\<forall>p \<in> set ps. alpha_of p = 255) \<longrightarrow>
        convert_for_png24 env img = Inr (img\<lparr>im_raster := RGB (map rgb_of ps)\<rparr>))
   \<and> (\<forall>ps. im_raster img = RGBA ps \<and> (\<forall>p \<in> set ps. alpha_of p = 0) \<longrightarrow>
        convert_for_png24 env img
          = Inr \<lparr>im_size = im_size img, im_transparency = False,
                 im_raster = RGB (replicate
                    (min (nat (fst (im_size img) * snd (im_size img))) (length ps))
                    (255, 255, 255))\<rparr>)"
proof (intro conjI allI impI)
  assume "mode img = ''RGB''"
  then show "convert_for_png24 env img = Inr img" by (rule png24_rgb)
next
  fix rgba ps
  assume a: "mode img \<noteq> ''RGB'' \<and> (mode img \<in> {''RGBA'', ''LA''} \<or> im_transparency img)
        \<and> convert env img ''RGBA'' = Inr rgba \<and> im_raster rgba = RGBA ps"
  show "if ps \<noteq> [] \<and> (\<forall>p \<in> set ps. alpha_of p = 255)
         then convert_for_png24 env img = Inr (rgba\<lparr>im_raster := RGB (map rgb_of ps)\<rparr>)
         else convert_for_png24 env img
           = Inr ((new_rgba (im_size rgba) (255, 255, 255, 255))
                    \<lparr>im_raster := RGB (map rgb_of (map2 over_px
                        (replicate (nat (fst (im_size rgba) * snd (im_size rgba)))
                           (255, 255, 255, 255))
                        ps))\<rparr>)"
  proof (cases "ps \<noteq> [] \<and> (\<forall>p \<in> set ps. alpha_of p = 255)")
    case True
    have "convert_for_png24 env img = Inr (rgba\<lparr>im_raster := RGB (map rgb_of ps)\<rparr>)"
      using a True by (intro png24_opaque) simp_all
    then show ?thesis by (simp only: if_P [OF True])
  next
    case False
    have "convert_for_png24 env img
           = Inr ((new_rgba (im_size rgba) (255, 255, 255, 255))
                    \<lparr>im_raster := RGB (map rgb_of (map2 over_px
                        (replicate (nat (fst (im_size rgba) * snd (im_size rgba)))
                           (255, 255, 255, 255))
                        ps))\<rparr>)"
      using a False by (intro png24_composite) simp_all
    then show ?thesis by (simp only: if_not_P [OF False])
  qed
next
  fix ps
  assume a: "im_raster img = RGBA ps \<and> ps \<noteq> [] \<and> (\<forall>p \<in> set ps. alpha_of p = 255)"
  then have m: "mode img = ''RGBA''" by (simp add: mode_def)
  have c: "convert env img ''RGBA'' = Inr img" by (simp add: convert_def m)
  show "convert_for_png24 env img = Inr (img\<lparr>im_raster := RGB (map rgb_of ps)\<rparr>)"
    using a by (intro png24_opaque [OF _ _ c]) (simp_all add: m)
next
  fix ps
  assume "im_raster img = RGBA ps \<and> (\<forall>p \<in> set ps. alpha_of p = 0)"
  then show "convert_for_png24 env img
          = Inr \<lparr>im_size = im_size img, im_transparency = False,
                 im_raster = RGB (replicate
                    (min (nat (fst (im_size img) * snd (im_size img))) (length ps))
                    (255, 255, 255))\<rparr>"
    using png24_transparent [where img = img and ps = ps and env = env] by simp
qed

theorem convert_for_png24_cases_witness:
  "convert_for_png24 ref_env (rgba_image (2, 1) [(10, 20, 30, 0), (40, 50, 60, 0)])
     = Inr \<lparr>im_size = (2, 1), im_transparency = False,
            im_raster = RGB [(255, 255, 255), (255, 255, 255)]\<rparr>
   \<and> convert_for_png24 ref_env (rgba_image (2, 1) [(10, 20, 30, 255), (40, 50, 60, 255)])
     = Inr \<lparr>im_size = (2, 1), im_transparency = False,
            im_raster = RGB [(10, 20, 30), (40, 50, 60)]\<rparr>
   \<and> convert_for_png24 ref_env (rgba_image (1, 1) [(0, 0, 0, 51)])
     = Inr \<lparr>im_size = (1, 1), im_transparency = False, im_raster = RGB [(204, 204, 204)]\<rparr>
   \<and> convert_for_png24 ref_env
        \<lparr>im_size = (1, 1), im_transparency = False, im_raster = RGB [(1, 2, 3)]\<rparr>
     = Inr \<lparr>im_size = (1, 1), im_transparency = False, im_raster = RGB [(1, 2, 3)]\<rparr>"
proof -
  let ?t = "rgba_image (2, 1) [(10, 20, 30, 0), (40, 50, 60, 0)]"
  let ?o = "rgba_image (2, 1) [(10, 20, 30, 255), (40, 50, 60, 255)]"
  let ?h = "rgba_image (1, 1) [(0, 0, 0, 51)]"
  let ?c = "\<lparr>im_size = (1, 1), im_transparency = False, im_raster = RGB [(1, 2, 3)]\<rparr>"
  have n2: "replicate (Suc (Suc 0)) (255 :: int, 255 :: int, 255 :: int)
            = [(255, 255, 255), (255, 255, 255)]" by simp
  have "convert_for_png24 ref_env ?t
     = Inr \<lparr>im_size = (2, 1), im_transparency = False,
            im_raster = RGB [(255, 255, 255), (255, 255, 255)]\<rparr>"
    using convert_for_png24_cases [of ?t ref_env] by (simp add: rgba_image_def n2)
  moreover have "convert_for_png24 ref_env ?o
     = Inr \<lparr>im_size = (2, 1), im_transparency = False,
            im_raster = RGB [(10, 20, 30), (40, 50, 60)]\<rparr>"
    using convert_for_png24_cases [of ?o ref_env] by (simp add: rgba_image_def)
  moreover have "convert_for_png24 ref_env ?h
     = Inr \<lparr>im_size = (1, 1), im_transparency = False, im_raster = RGB [(204, 204, 204)]\<rparr>"
  proof -
    have m: "mode ?h = ''RGBA''" by (simp add: mode_def rgba_image_def)
    have c: "convert ref_env ?h ''RGBA'' = Inr ?h" by (simp add: convert_def m)
    have r: "round (13264080 / 65025 :: rat) = 204" by (simp add: round_def floor_eq_iff)
    from convert_for_png24_cases [of ?h ref_env] m c
    have "convert_for_png24 ref_env ?h
           = Inr ((new_rgba (1, 1) (255, 255, 255, 255))
                    \<lparr>im_raster := RGB (map rgb_of (map2 over_px
                        (replicate (nat (1 * 1)) (255, 255, 255, 255)) [(0, 0, 0, 51)]))\<rparr>)"
      by (simp add: rgba_image_def)
    then show ?thesis
      by (simp add: new_rgba_def over_px_def over_channel_def r)
  qed
  moreover have "convert_for_png24 ref_env ?c = Inr ?c"
    using convert_for_png24_cases [of ?c ref_env] by (simp add: mode_def)
  ultimately show ?thesis by simp
qed

section \<open>Failure fallback\<close>

lemma compress_success:
  "compress_body env cfg s t fs = (Inr u, fs1) \<Longrightarrow> compress env cfg s t fs = (Inr True, fs1)"
  by (simp add: compress_def)

lemma compress_failure:
  "compress_body env cfg s t fs = (Inl e, fs1) \<Longrightarrow>
   compress env cfg s t fs = copy_fallback env s t fs1"
  by (simp add: compress_def)

lemma copy2_success:
  "fs s = Some (File b) \<Longrightarrow> os_dest env s t fs = Inr p \<Longrightarrow>
   copy2 env s t fs = (Inr (), fs(p \<mapsto> File b))"
  by (simp add: copy2_def)

text \<open>
  C4. \<open>compress\<close> returns \<open>True\<close> when the \<open>try\<close> block completes. Whatever exception the
  block raises, \<open>compress\<close> catches it and attempts the copy of the source to the target:
  when the copy succeeds it returns \<open>False\<close> and the destination holds the bytes of the
  source; when the copy raises, that exception is the one \<open>compress\<close> raises. An
  exception leaves \<open>compress\<close> only in that last case.
\<close>

theorem compress_never_raises_unless_copy_fails:
  "(\<forall>fs1. compress_body env cfg s t fs = (Inr (), fs1) \<longrightarrow>
       compress env cfg s t fs = (Inr True, fs1))
   \<and> (\<forall>e fs1 b p. compress_body env cfg s t fs = (Inl e, fs1) \<and> fs1 s = Some (File b)
         \<and> os_dest env s t fs1 = Inr p \<longrightarrow>
       compress env cfg s t fs = (Inr False, fs1(p \<mapsto> File b)))
   \<and> (\<forall>e fs1 fs2. compress_body env cfg s t fs = (Inl e, fs1)
         \<and> copy2 env s t fs1 = (Inr (), fs2) \<longrightarrow>
       compress env cfg s t fs = (Inr False, fs2))
   \<and> (\<forall>e fs1 ce fs2. compress_body env cfg s t fs = (Inl e, fs1)
         \<and> copy2 env s t fs1 = (Inl ce, fs2) \<longrightarrow>
       compress env cfg s t fs = (Inl ce, fs2))
   \<and> (\<forall>ce fs2. compress env cfg s t fs = (Inl ce, fs2) \<longrightarrow>
       (\<exists>e fs1. compress_body env cfg s t fs = (Inl e, fs1)
          \<and> copy2 env s t fs1 = (Inl ce, fs2)))"
proof (intro conjI allI impI)
  fix fs1
  assume "compress_body env cfg s t fs = (Inr (), fs1)"
  then show "compress env cfg s t fs = (Inr True, fs1)" by (rule compress_success)
next
  fix e fs1 b p
  assume "compress_body env cfg s t fs = (Inl e, fs1) \<and> fs1 s = Some (File b)
         \<and> os_dest env s t fs1 = Inr p"
  then show "compress env cfg s t fs = (Inr False, fs1(p \<mapsto> File b))"
    by (simp add: compress_failure copy_fallback_def copy2_success)
next
  fix e fs1 fs2
  assume "compress_body env cfg s t fs = (Inl e, fs1) \<and> copy2 env s t fs1 = (Inr (), fs2)"
  then show "compress env cfg s t fs = (Inr False, fs2)"
    by (simp add: compress_failure copy_fallback_def)
next
  fix e fs1 ce fs2
  assume "compress_body env cfg s t fs = (Inl e, fs1) \<and> copy2 env s t fs1 = (Inl ce, fs2)"
  then show "compress env cfg s t fs = (Inl ce, fs2)"
    by (simp add: compress_failure copy_fallback_def)
next
  fix ce fs2
  assume r: "compress env cfg s t fs = (Inl ce, fs2)"
  obtain r1 fs1 where b: "compress_body env cfg s t fs = (r1, fs1)"
    by (cases "compress_body env cfg s t fs")
  show "\<exists>e fs1. compress_body env cfg s t fs = (Inl e, fs1) \<and> copy2 env s t fs1 = (Inl ce, fs2)"
  proof (cases r1)
    case (Inr u)
    with b r show ?thesis by (simp add: compress_success)
  next
    case (Inl e)
    with b have f: "compress env cfg s t fs = copy_fallback env s t fs1"
      by (simp add: compress_failure)
    obtain r2 fs3 where c: "copy2 env s t fs1 = (r2, fs3)" by (cases "copy2 env s t fs1")
    with f r have "r2 = Inl ce \<and> fs3 = fs2"
      by (cases r2) (simp_all add: copy_fallback_def)
    with b c Inl show ?thesis by simp
  qed
qed

theorem compress_never_raises_unless_copy_fails_witness:
  "compress ref_env Map.empty ''/in/bad.png'' ''/out/bad.png''
      [''/in/bad.png'' \<mapsto> File [1, 2, 3]]
     = (Inr False, [''/in/bad.png'' \<mapsto> File [1, 2, 3], ''/out/bad.png'' \<mapsto> File [1, 2, 3]])
   \<and> compress ref_env Map.empty ''/in/ok.png'' ''/out/ok.png'' [''/in/ok.png'' \<mapsto> File [0x89]]
     = (Inr True, [''/in/ok.png'' \<mapsto> File [0x89], ''/out/ok.png'' \<mapsto> File []])"
proof -
  let ?bad = "[''/in/bad.png'' \<mapsto> File [1, 2, 3]]"
  let ?ok = "[''/in/ok.png'' \<mapsto> File [0x89]]"
  have n: "normalize_path ''/in/bad.png'' = Some ''/in/bad.png''"
    "normalize_path ''/in/ok.png'' = Some ''/in/ok.png''"
    "normalize_path ''/out'' = Some ''/out''"
    by (simp_all add: normalize_path_def path_resolve_def has_nul_def)
  have e: "os_dirname ref_env p = ''/out''" "os_splitext ref_env p = (p, ''.png'')"
    "str_lower ref_env x = x" "os_makedirs ref_env p fs = Inr ()"
    "os_dest ref_env p p' fs = Inr p'"
    "lib_save ref_env img p kw fs = (Inr (), fs(p \<mapsto> File []))"
    "lib_open ref_env [1, 2, 3] = Inl UnidentifiedImageError"
    "lib_open ref_env [0x89]
       = Inr \<lparr>im_size = (1, 1), im_transparency = False, im_raster = RGB [(0, 0, 0)]\<rparr>"
    for p p' x fs img kw
    by (simp_all add: ref_env_def)
  have b1: "compress_body ref_env Map.empty ''/in/bad.png'' ''/out/bad.png'' ?bad
            = (Inl UnidentifiedImageError, ?bad)"
    by (simp add: compress_body_def n isfile_def e image_open_def Let_def)
  have q: "clamp_int (cfg_get Map.empty ''photo_quality'' (PyInt 85)) 0 100 = 85"
    by (simp add: cfg_get_def clamp_int_def)
  have p: "get_image_preset Map.empty = preset_custom"
    by (simp add: get_image_preset_def cfg_get_def)
  have m: "py_num (cfg_get Map.empty k (PyInt 2000)) = Inr 2000" for k
    by (simp add: cfg_get_def)
  have s: "save_png ref_env img ''/out/ok.png'' 85 preset_custom ?ok
           = (Inr (), ?ok(''/out/ok.png'' \<mapsto> File []))" for img
    using preset_names_distinct by (simp add: save_png_def e)
  have b2: "compress_body ref_env Map.empty ''/in/ok.png'' ''/out/ok.png'' ?ok
            = (Inr (), ?ok(''/out/ok.png'' \<mapsto> File []))"
    by (simp add: compress_body_def n isfile_def image_open_def Let_def q p m e s
          resize_if_needed_def save_image_def)
  have d: "os_dest ref_env ''/in/bad.png'' ''/out/bad.png'' ?bad = Inr ''/out/bad.png''"
    by (simp add: e)
  from compress_never_raises_unless_copy_fails
         [of ref_env Map.empty "''/in/bad.png''" "''/out/bad.png''" ?bad] b1 d
  have "compress ref_env Map.empty ''/in/bad.png'' ''/out/bad.png'' ?bad
          = (Inr False, ?bad(''/out/bad.png'' \<mapsto> File [1, 2, 3]))"
    by simp
  moreover from compress_never_raises_unless_copy_fails
         [of ref_env Map.empty "''/in/ok.png''" "''/out/ok.png''" ?ok] b2
  have "compress ref_env Map.empty ''/in/ok.png'' ''/out/ok.png'' ?ok
          = (Inr True, ?ok(''/out/ok.png'' \<mapsto> File []))"
    by simp
  ultimately show ?thesis by simp
qed




end
